theory Spec2Isabelle
  imports Main
begin

section \<open>S-expression values, tokens and errors (parser/sexpr.py)\<close>

text \<open>
  A Python \<open>str\<close> is a sequence of code points. It is modelled as a \<open>string\<close>, one
  \<open>char\<close> per code point, which covers the texts whose code points are below 256.
  \<open>SExpr = Union[str, list[SExpr]]\<close> is a two-variant datatype.
\<close>

datatype sexpr = Atom string | SList "sexpr list"

datatype token_type = LPAREN | RPAREN | STRING | ATOM

record token =
  tok_type :: token_type
  tok_value :: string
  tok_line :: nat
  tok_column :: nat

record parse_error =
  message :: string
  line :: nat
  column :: nat

abbreviation Token :: "token_type \<Rightarrow> string \<Rightarrow> nat \<Rightarrow> nat \<Rightarrow> token" where
  "Token ty v l c \<equiv> \<lparr>tok_type = ty, tok_value = v, tok_line = l, tok_column = c\<rparr>"

abbreviation ParseError :: "string \<Rightarrow> nat \<Rightarrow> nat \<Rightarrow> parse_error" where
  "ParseError m l c \<equiv> \<lparr>message = m, line = l, column = c\<rparr>"

abbreviation ch_quote :: char where "ch_quote \<equiv> CHR 0x22"
abbreviation ch_backslash :: char where "ch_backslash \<equiv> CHR 0x5C"
abbreviation ch_newline :: char where "ch_newline \<equiv> CHR 0x0A"
abbreviation ch_tab :: char where "ch_tab \<equiv> CHR 0x09"
abbreviation ch_cr :: char where "ch_cr \<equiv> CHR 0x0D"

section \<open>Tokenizer\<close>

text \<open>
  The tokenizer state is the text, the index \<open>_pos\<close>, \<open>_line\<close> and \<open>_col\<close>. The model
  passes the unread remainder \<open>text[pos:]\<close> together with line and column;
  \<open>pos < len(text)\<close> is "the remainder is not empty".
\<close>

definition advance :: "char \<Rightarrow> nat \<Rightarrow> nat \<Rightarrow> nat \<times> nat" where
  "advance ch l c = (if ch = ch_newline then (l + 1, 1) else (l, c + 1))"

definition is_space :: "char \<Rightarrow> bool" where
  "is_space ch \<longleftrightarrow> ch = CHR '' '' \<or> ch = ch_tab \<or> ch = ch_newline \<or> ch = ch_cr"

text \<open>The inner loop of \<open>_skip_whitespace\<close>: a comment runs up to, not over, the newline.\<close>

fun skip_comment :: "string \<Rightarrow> nat \<Rightarrow> nat \<Rightarrow> string \<times> nat \<times> nat" where
  "skip_comment [] l c = ([], l, c)"
| "skip_comment (ch # cs) l c =
     (if ch \<noteq> ch_newline
      then (case advance ch l c of (l', c') \<Rightarrow> skip_comment cs l' c')
      else (ch # cs, l, c))"

lemma skip_comment_length: "length (fst (skip_comment cs l c)) \<le> length cs"
  by (induction cs l c rule: skip_comment.induct) (auto simp: advance_def)

lemma skip_comment_shorter: "skip_comment cs l c = (cs', r) \<Longrightarrow> length cs' \<le> length cs"
  using skip_comment_length[of cs l c] by simp

function skip_whitespace :: "string \<Rightarrow> nat \<Rightarrow> nat \<Rightarrow> string \<times> nat \<times> nat" where
  "skip_whitespace [] l c = ([], l, c)"
| "skip_whitespace (ch # cs) l c =
     (if is_space ch
      then (case advance ch l c of (l', c') \<Rightarrow> skip_whitespace cs l' c')
      else if ch = CHR '';''
      then (case skip_comment (ch # cs) l c of (cs', l', c') \<Rightarrow> skip_whitespace cs' l' c')
      else (ch # cs, l, c))"
  by pat_completeness auto
termination
  apply (relation "measure (\<lambda>(cs, l, c). length cs)")
    apply simp
   apply simp
  apply (auto simp: advance_def split: prod.splits dest!: skip_comment_shorter)
  done

text \<open>
  \<open>_read_string\<close>, after the opening quote has been skipped: \<open>None\<close> is leaving the
  loop at the end of the text, \<open>Some\<close> carries the decoded characters and the state
  after the closing quote.
\<close>

definition unescape :: "char \<Rightarrow> char" where
  "unescape e =
     (if e = CHR ''n'' then ch_newline
      else if e = CHR ''t'' then ch_tab
      else if e = CHR ''r'' then ch_cr
      else if e = ch_backslash then ch_backslash
      else if e = ch_quote then ch_quote
      else e)"

fun read_string_loop ::
  "string \<Rightarrow> nat \<Rightarrow> nat \<Rightarrow> string \<Rightarrow> (string \<times> string \<times> nat \<times> nat) option" where
  "read_string_loop [] l c chars = None"
| "read_string_loop [ch] l c chars =
     (if ch = ch_quote then (case advance ch l c of (l', c') \<Rightarrow> Some (chars, [], l', c'))
      else if ch = ch_backslash then None
      else None)"
| "read_string_loop (ch # e # cs) l c chars =
     (if ch = ch_quote
      then (case advance ch l c of (l', c') \<Rightarrow> Some (chars, e # cs, l', c'))
      else if ch = ch_backslash
      then (case advance ch l c of (l', c') \<Rightarrow>
              (case advance e l' c' of (l'', c'') \<Rightarrow>
                 read_string_loop cs l'' c'' (chars @ [unescape e])))
      else (case advance ch l c of (l', c') \<Rightarrow>
              read_string_loop (e # cs) l' c' (chars @ [ch])))"

definition read_string ::
  "string \<Rightarrow> nat \<Rightarrow> nat \<Rightarrow> parse_error + (token \<times> string \<times> nat \<times> nat)" where
  "read_string cs l c =
     (case advance (hd cs) l c of (l', c') \<Rightarrow>
        (case read_string_loop (tl cs) l' c' [] of
           Some (chars, cs', l'', c'') \<Rightarrow> Inr (Token STRING chars l c, cs', l'', c'')
         | None \<Rightarrow> Inl (ParseError ''Unterminated string'' l c)))"

definition is_delim :: "char \<Rightarrow> bool" where
  "is_delim ch \<longleftrightarrow> is_space ch \<or> ch = CHR ''('' \<or> ch = CHR '')'' \<or> ch = ch_quote"

fun read_atom_loop :: "string \<Rightarrow> nat \<Rightarrow> nat \<Rightarrow> string \<Rightarrow> string \<times> string \<times> nat \<times> nat" where
  "read_atom_loop [] l c chars = (chars, [], l, c)"
| "read_atom_loop (ch # cs) l c chars =
     (if is_delim ch then (chars, ch # cs, l, c)
      else (case advance ch l c of (l', c') \<Rightarrow> read_atom_loop cs l' c' (chars @ [ch])))"

definition read_atom :: "string \<Rightarrow> nat \<Rightarrow> nat \<Rightarrow> token \<times> string \<times> nat \<times> nat" where
  "read_atom cs l c =
     (case read_atom_loop cs l c [] of (chars, cs', l', c') \<Rightarrow> (Token ATOM chars l c, cs', l', c'))"

lemma skip_whitespace_length: "length (fst (skip_whitespace cs l c)) \<le> length cs"
proof (induction cs l c rule: skip_whitespace.induct)
  case (1 l c)
  show ?case by simp
next
  case (2 ch cs l c)
  show ?case
  proof (cases "is_space ch")
    case True
    with 2 show ?thesis by (auto simp: advance_def split: prod.splits)
  next
    case False
    show ?thesis
    proof (cases "ch = CHR '';''")
      case True
      obtain cs' l' c' where sc: "skip_comment (ch # cs) l c = (cs', l', c')"
        by (cases "skip_comment (ch # cs) l c") auto
      have "length (fst (skip_comment (ch # cs) l c)) \<le> length (ch # cs)"
        by (rule skip_comment_length)
      with sc have le: "length cs' \<le> Suc (length cs)" by simp
      from 2(2)[OF False True sc[symmetric] refl] sc
      have "length (fst (skip_whitespace cs' l' c')) \<le> length cs'" by simp
      with le False True sc show ?thesis by simp
    next
      case F2: False
      with False show ?thesis by simp
    qed
  qed
qed

lemma skip_whitespace_head:
  "skip_whitespace cs l c = (ch # cs', l', c') \<Longrightarrow> \<not> is_space ch \<and> ch \<noteq> CHR '';''"
proof (induction cs l c rule: skip_whitespace.induct)
  case (1 l c)
  then show ?case by simp
next
  case (2 x xs l c)
  show ?case
  proof (cases "is_space x")
    case True
    with 2 show ?thesis by (auto split: prod.splits)
  next
    case False
    show ?thesis
    proof (cases "x = CHR '';''")
      case True
      with False 2 show ?thesis by (auto split: prod.splits)
    next
      case F2: False
      with False 2 show ?thesis by auto
    qed
  qed
qed

lemma read_string_loop_length:
  "read_string_loop cs l c chars = Some (s, cs', r) \<Longrightarrow> length cs' < length cs"
  by (induction cs l c chars rule: read_string_loop.induct)
     (auto split: if_splits prod.splits simp: less_Suc_eq)

lemma read_atom_loop_length:
  "read_atom_loop cs l c chars = (s, cs', r) \<Longrightarrow> length cs' \<le> length cs"
  by (induction cs l c chars rule: read_atom_loop.induct)
     (auto split: if_splits prod.splits simp: le_Suc_eq)

lemma skip_whitespace_shorter:
  "skip_whitespace cs l c = (cs', r) \<Longrightarrow> length cs' \<le> length cs"
  using skip_whitespace_length[of cs l c] by simp

lemma read_string_shorter:
  "read_string (ch # cs) l c = Inr (tok, cs', r) \<Longrightarrow> length cs' < length cs"
  by (auto simp: read_string_def split: prod.splits option.splits
           dest: read_string_loop_length)

lemma read_atom_shorter:
  "\<not> is_delim ch \<Longrightarrow> read_atom (ch # cs) l c = (tok, cs', r) \<Longrightarrow> length cs' \<le> length cs"
  by (auto simp: read_atom_def split: prod.splits dest: read_atom_loop_length)

text \<open>
  The main loop of \<open>tokenize\<close>. \<open>_skip_whitespace\<close> leaves an empty remainder empty, so
  the loop test and the \<open>break\<close> after skipping are the two tests for the end of the text.
\<close>

function tokenize_loop :: "string \<Rightarrow> nat \<Rightarrow> nat \<Rightarrow> token list \<Rightarrow> parse_error + token list" where
  "tokenize_loop cs l c tokens =
     (if cs = [] then Inr tokens
      else (case skip_whitespace cs l c of
        ([], l1, c1) \<Rightarrow> Inr tokens
      | (ch # cs2, l1, c1) \<Rightarrow>
          if ch = CHR ''(''
          then (case advance ch l1 c1 of (l2, c2) \<Rightarrow>
                  tokenize_loop cs2 l2 c2 (tokens @ [Token LPAREN ''('' l1 c1]))
          else if ch = CHR '')''
          then (case advance ch l1 c1 of (l2, c2) \<Rightarrow>
                  tokenize_loop cs2 l2 c2 (tokens @ [Token RPAREN '')'' l1 c1]))
          else if ch = ch_quote
          then (case read_string (ch # cs2) l1 c1 of
                  Inl err \<Rightarrow> Inl err
                | Inr (tok, cs3, l3, c3) \<Rightarrow> tokenize_loop cs3 l3 c3 (tokens @ [tok]))
          else (case read_atom (ch # cs2) l1 c1 of
                  (tok, cs3, l3, c3) \<Rightarrow> tokenize_loop cs3 l3 c3 (tokens @ [tok]))))"
  by pat_completeness auto
termination
proof (relation "measure (\<lambda>(cs, l, c, tokens). length cs)", goal_cases)
  case 1
  show ?case by simp
next
  case 2
  then show ?case by (auto dest!: sym[of "(_, _)" "skip_whitespace _ _ _"] skip_whitespace_shorter)
next
  case 3
  then show ?case by (auto dest!: sym[of "(_, _)" "skip_whitespace _ _ _"] skip_whitespace_shorter)
next
  case 4
  then show ?case
    by (auto dest!: sym[of "(_, _)" "skip_whitespace _ _ _"] skip_whitespace_shorter
                    read_string_shorter)
next
  case (5 cs l c tokens x y ch cs2 xa ya xb yb xc yc xd yd)
  from 5 have sk: "skip_whitespace cs l c = (ch # cs2, y)" by simp
  from sk 5 have nd: "\<not> is_delim ch"
    using skip_whitespace_head[of cs l c ch cs2 "fst y" "snd y"] by (simp add: is_delim_def)
  from 5 have "read_atom (ch # cs2) xa ya = (xb, xc, yc)" by simp
  from read_atom_shorter[OF nd this] skip_whitespace_shorter[OF sk] show ?case by simp
qed

declare tokenize_loop.simps [simp del]

definition tokenize :: "string \<Rightarrow> parse_error + token list" where
  "tokenize text = tokenize_loop text 1 1 []"

section \<open>Parser\<close>

text \<open>
  The parser state is the token list and the index \<open>_pos\<close>; the model passes the
  unread tokens \<open>tokens[pos:]\<close> and returns them with each result. \<open>_peek\<close> returning
  \<open>None\<close> is the empty remainder.
\<close>

function parse_expr :: "token list \<Rightarrow> parse_error + (sexpr \<times> token list)"
  and parse_list :: "token \<Rightarrow> sexpr list \<Rightarrow> token list \<Rightarrow> parse_error + (sexpr list \<times> token list)"
where
  "parse_expr [] = Inl (ParseError ''Unexpected end of input'' 0 0)"
| "parse_expr (t # ts) =
     (if tok_type t = LPAREN
      then (case parse_list t [] ts of
              Inl err \<Rightarrow> Inl err
            | Inr (items, rest) \<Rightarrow> Inr (SList items, rest))
      else if tok_type t = RPAREN
      then Inl (ParseError ''Unexpected closing paren'' (tok_line t) (tok_column t))
      else Inr (Atom (tok_value t), ts))"
| "parse_list start_token items [] =
     Inl (ParseError ''Unexpected end of input in list'' (tok_line start_token) (tok_column start_token))"
| "parse_list start_token items (t # ts) =
     (if tok_type t = RPAREN then Inr (items, ts)
      else (case parse_expr (t # ts) of
              Inl err \<Rightarrow> Inl err
            | Inr (x, rest) \<Rightarrow> parse_list start_token (items @ [x]) rest))"
  by pat_completeness auto

termination
proof -
  have consumes:
    "parse_expr_parse_list_dom (Inl ts) \<Longrightarrow>
       (\<forall>x rest. parse_expr ts = Inr (x, rest) \<longrightarrow> length rest < length ts)"
    "parse_expr_parse_list_dom (Inr (st, items, ts')) \<Longrightarrow>
       (\<forall>xs rest. parse_list st items ts' = Inr (xs, rest) \<longrightarrow> length rest < length ts')"
    for ts st items ts'
  proof (induction ts and st items ts' rule: parse_expr_parse_list.pinduct)
    case 1
    then show ?case by (simp add: parse_expr.psimps)
  next
    case (2 t ts)
    then show ?case
      by (auto simp: parse_expr.psimps split: if_splits sum.splits prod.splits)
  next
    case (3 st items)
    then show ?case by (simp add: parse_list.psimps)
  next
    case (4 st items t ts)
    then show ?case
      by (fastforce simp: parse_list.psimps split: if_splits sum.splits prod.splits)
  qed
  show ?thesis
  proof (relation "measure (\<lambda>x. case x of Inl ts \<Rightarrow> 2 * length ts + 1
                                     | Inr (st, items, ts) \<Rightarrow> 2 * length ts + 2)", goal_cases)
    case 1
    show ?case by simp
  next
    case 2
    then show ?case by simp
  next
    case 3
    then show ?case by simp
  next
    case (4 st items t ts x rest)
    then show ?case using consumes(1)[of "t # ts"] by (cases x) auto
  qed
qed

definition parse :: "token list \<Rightarrow> parse_error + sexpr" where
  "parse tokens =
     (case parse_expr tokens of
        Inl err \<Rightarrow> Inl err
      | Inr (x, rest) \<Rightarrow>
          (case rest of
             [] \<Rightarrow> Inr x
           | t # _ \<Rightarrow> Inl (ParseError (''Unexpected token after expression: '' @ tok_value t)
                              (tok_line t) (tok_column t))))"

definition parse_sexpr :: "string \<Rightarrow> parse_error + sexpr" where
  "parse_sexpr text =
     (case tokenize text of
        Inl err \<Rightarrow> Inl err
      | Inr tokens \<Rightarrow> parse tokens)"

section \<open>Writer (writer/sexpr_writer.py)\<close>

definition needs_quoting :: "string \<Rightarrow> bool" where
  "needs_quoting s =
     (if s = [] then True
      else list_ex (\<lambda>ch. ch \<in> set [CHR '' '', ch_tab, ch_newline, ch_cr, ch_quote, CHR ''('', CHR '')'']) s)"

definition escape_char :: "char \<Rightarrow> string" where
  "escape_char ch =
     (if ch = ch_quote then [ch_backslash, ch_quote]
      else if ch = ch_backslash then [ch_backslash, ch_backslash]
      else if ch = ch_newline then [ch_backslash, CHR ''n'']
      else if ch = ch_cr then [ch_backslash, CHR ''r'']
      else if ch = ch_tab then [ch_backslash, CHR ''t'']
      else [ch])"

fun escape_string :: "string \<Rightarrow> string" where
  "escape_string [] = []"
| "escape_string (ch # s) = escape_char ch @ escape_string s"

definition format_atom :: "string \<Rightarrow> string" where
  "format_atom atom =
     (if needs_quoting atom then [ch_quote] @ escape_string atom @ [ch_quote] else atom)"

text \<open>The fields that \<open>SExprWriter.__init__\<close> sets, and the writer that \<open>write_sexpr\<close> builds.\<close>

record writer =
  indent :: string
  max_inline_length :: nat
  compact_keys :: "string list"

definition SExprWriter :: "string \<Rightarrow> writer" where
  "SExprWriter ind =
     \<lparr>indent = ind, max_inline_length = 80,
      compact_keys = [''at'', ''xy'', ''start'', ''end'', ''size'', ''stroke'', ''fill'',
                      ''font'', ''justify'', ''color'', ''pts'', ''version'', ''generator'']\<rparr>"

fun join :: "string \<Rightarrow> string list \<Rightarrow> string" where
  "join sep [] = []"
| "join sep [p] = p"
| "join sep (p # q # ps) = p @ sep @ join sep (q # ps)"

fun write_inline :: "sexpr \<Rightarrow> string" where
  "write_inline (Atom a) = format_atom a"
| "write_inline (SList xs) = ''('' @ join '' '' (map write_inline xs) @ '')''"

fun is_str :: "sexpr \<Rightarrow> bool" where
  "is_str (Atom a) = True"
| "is_str (SList xs) = False"

text \<open>
  \<open>_should_inline\<close>. Its \<open>try\<close> guards \<open>_write_inline\<close>, which raises on no tree (only
  Python's recursion limit, which has no counterpart here, could stop it).
\<close>

fun should_inline :: "writer \<Rightarrow> sexpr \<Rightarrow> nat \<Rightarrow> bool" where
  "should_inline w (Atom a) depth = True"
| "should_inline w (SList xs) depth =
     (if length xs = 0 then True
      else if (case hd xs of Atom a \<Rightarrow> a \<in> set (compact_keys w) | SList _ \<Rightarrow> False) then True
      else if length xs = 2 \<and> list_all is_str xs then True
      else if length (write_inline (SList xs)) \<le> max_inline_length w
              \<and> (list_all is_str xs \<or> length xs \<le> 3) then True
      else False)"

definition times :: "string \<Rightarrow> nat \<Rightarrow> string" where
  "times s n = concat (replicate n s)"

text \<open>
  \<open>_write_expr\<close> appends to a \<open>StringIO\<close>; the model takes the buffer's content and
  returns the new content. \<open>write_items\<close> is its \<open>for item in expr\<close> loop with the
  flag \<open>first\<close>.
\<close>

fun write_expr :: "writer \<Rightarrow> sexpr \<Rightarrow> string \<Rightarrow> nat \<Rightarrow> string"
  and write_items :: "writer \<Rightarrow> sexpr list \<Rightarrow> bool \<Rightarrow> string \<Rightarrow> nat \<Rightarrow> string"
where
  "write_expr w (Atom a) output depth = output @ format_atom a"
| "write_expr w (SList xs) output depth =
     (if length xs = 0 then output @ ''()''
      else if should_inline w (SList xs) depth then output @ write_inline (SList xs)
      else write_items w xs True (output @ ''('') depth
             @ [ch_newline] @ times (indent w) depth @ '')'')"
| "write_items w [] first output depth = output"
| "write_items w (item # items) first output depth =
     (if first then write_items w items False (write_expr w item output depth) depth
      else write_items w items False
             (write_expr w item (output @ [ch_newline] @ times (indent w) (depth + 1)) (depth + 1))
             depth)"

definition SExprWriter_write :: "writer \<Rightarrow> sexpr \<Rightarrow> string" where
  "SExprWriter_write w expr = write_expr w expr [] 0 @ [ch_newline]"

text \<open>\<open>write_sexpr(expr, indent="  ")\<close> with the default indent.\<close>

definition write_sexpr :: "sexpr \<Rightarrow> string" where
  "write_sexpr expr = SExprWriter_write (SExprWriter ''  '') expr"

section \<open>Typed model (types/primitives.py, types/enums.py, types/schematic.py)\<close>

text \<open>
  A Python \<open>float\<close> field has the type parameter \<open>'f\<close>: its values are kept abstract,
  and what the code does with them (reading one from text, formatting one, the literals
  of the source) is a parameter of the functions that need it.
\<close>

record 'f Point =
  pt_x :: 'f
  pt_y :: 'f

record 'f Position =
  pos_x :: 'f
  pos_y :: 'f
  pos_angle :: 'f

datatype UUID = UUID string

record 'f Color =
  col_r :: int
  col_g :: int
  col_b :: int
  col_a :: 'f

record 'f Stroke =
  stroke_width :: 'f
  stroke_type :: string
  stroke_color :: "'f Color option"

record 'f Fill =
  fill_type :: string
  fill_color :: "'f Color option"

record 'f Font =
  font_face :: "string option"
  font_size_x :: 'f
  font_size_y :: 'f
  font_thickness :: 'f
  font_bold :: bool
  font_italic :: bool
  font_line_spacing :: 'f

record 'f Effects =
  eff_font :: "'f Font"
  eff_justify_h :: string
  eff_justify_v :: string
  eff_mirror :: bool
  eff_hide :: bool

record 'f Property =
  prop_name :: string
  prop_value :: string
  prop_id :: int
  prop_position :: "'f Position"
  prop_effects :: "'f Effects"

record SymbolPin =
  spin_number :: string
  spin_uuid :: UUID

record 'f SymbolInstance =
  lib_id :: string
  si_position :: "'f Position"
  si_unit :: int
  si_mirror :: string
  si_properties :: "'f Property list"
  si_pins :: "SymbolPin list"
  si_uuid :: UUID
  si_in_bom :: bool
  si_on_board :: bool

text \<open>
  The accessors of \<open>SymbolInstance\<close>: each is a loop over \<open>self.properties\<close> that
  returns at the first property of the wanted name.
\<close>

fun reference_loop :: "'f Property list \<Rightarrow> string" where
  "reference_loop [] = ''?''"
| "reference_loop (prop # props) =
     (if prop_name prop = ''Reference'' then prop_value prop else reference_loop props)"

definition reference :: "'f SymbolInstance \<Rightarrow> string" where
  "reference self = reference_loop (si_properties self)"

fun value_loop :: "'f Property list \<Rightarrow> string" where
  "value_loop [] = ''''"
| "value_loop (prop # props) =
     (if prop_name prop = ''Value'' then prop_value prop else value_loop props)"

definition symbol_value :: "'f SymbolInstance \<Rightarrow> string" where
  "symbol_value self = value_loop (si_properties self)"

fun footprint_loop :: "'f Property list \<Rightarrow> string option" where
  "footprint_loop [] = None"
| "footprint_loop (prop # props) =
     (if prop_name prop = ''Footprint'' then Some (prop_value prop) else footprint_loop props)"

definition footprint :: "'f SymbolInstance \<Rightarrow> string option" where
  "footprint self = footprint_loop (si_properties self)"

text \<open>
  \<open>with_property\<close>: the loop carries \<open>new_props\<close> and \<open>found\<close>; the new instance takes
  every other field from \<open>self\<close>.
\<close>

fun with_property_loop ::
  "'f Property list \<Rightarrow> 'f Property \<Rightarrow> 'f Property list \<Rightarrow> bool \<Rightarrow> 'f Property list \<times> bool" where
  "with_property_loop [] prop new_props found = (new_props, found)"
| "with_property_loop (p # ps) prop new_props found =
     (if prop_name p = prop_name prop
      then with_property_loop ps prop (new_props @ [prop]) True
      else with_property_loop ps prop (new_props @ [p]) found)"

definition with_property :: "'f SymbolInstance \<Rightarrow> 'f Property \<Rightarrow> 'f SymbolInstance" where
  "with_property self prop =
     (case with_property_loop (si_properties self) prop [] False of
        (new_props, found) \<Rightarrow>
          \<lparr>lib_id = lib_id self,
           si_position = si_position self,
           si_unit = si_unit self,
           si_mirror = si_mirror self,
           si_properties = (if \<not> found then new_props @ [prop] else new_props),
           si_pins = si_pins self,
           si_uuid = si_uuid self,
           si_in_bom = si_in_bom self,
           si_on_board = si_on_board self\<rparr>)"

section \<open>Example values\<close>

definition ex_effects :: "int Effects" where
  "ex_effects =
     \<lparr>eff_font = \<lparr>font_face = None, font_size_x = 1, font_size_y = 1, font_thickness = 0,
                  font_bold = False, font_italic = False, font_line_spacing = 1\<rparr>,
      eff_justify_h = ''center'', eff_justify_v = ''center'', eff_mirror = False,
      eff_hide = False\<rparr>"

definition ex_prop :: "string \<Rightarrow> string \<Rightarrow> int Property" where
  "ex_prop n v =
     \<lparr>prop_name = n, prop_value = v, prop_id = 0,
      prop_position = \<lparr>pos_x = 0, pos_y = 0, pos_angle = 0\<rparr>, prop_effects = ex_effects\<rparr>"

definition ex_instance :: "int Property list \<Rightarrow> int SymbolInstance" where
  "ex_instance props =
     \<lparr>lib_id = ''Device:R'', si_position = \<lparr>pos_x = 0, pos_y = 0, pos_angle = 0\<rparr>, si_unit = 1,
      si_mirror = '''', si_properties = props, si_pins = [], si_uuid = UUID ''u'',
      si_in_bom = True, si_on_board = True\<rparr>"

section \<open>Positions in a text and the rounds of the tokenizer\<close>

text \<open>
  \<open>advance_over s (l, c)\<close> is the line and column after \<open>_advance\<close> has consumed the
  characters of \<open>s\<close> from line \<open>l\<close>, column \<open>c\<close>; \<open>position_after pre\<close> is the position
  of the character that follows the prefix \<open>pre\<close> of a text.
\<close>

fun advance_over :: "string \<Rightarrow> nat \<times> nat \<Rightarrow> nat \<times> nat" where
  "advance_over [] p = p"
| "advance_over (ch # s) p = advance_over s (advance ch (fst p) (snd p))"

definition position_after :: "string \<Rightarrow> nat \<times> nat" where
  "position_after pre = advance_over pre (1, 1)"

text \<open>
  Line and column of a character counted on the text itself, without the tokenizer:
  for the character that follows the prefix \<open>pre\<close>, the line is one more than the number
  of newlines in \<open>pre\<close>, and the column is one more than the number of characters of
  \<open>pre\<close> after its last newline (all of \<open>pre\<close> when it has none).
\<close>

definition line_of :: "string \<Rightarrow> nat" where
  "line_of pre = 1 + length (filter (\<lambda>ch. ch = ch_newline) pre)"

definition column_of :: "string \<Rightarrow> nat" where
  "column_of pre = 1 + length (takeWhile (\<lambda>ch. ch \<noteq> ch_newline) (rev pre))"

text \<open>
  The loop of \<open>_read_string\<close> finds a closing quote: a quote that is not the character
  after a backslash.
\<close>

fun has_closing_quote :: "string \<Rightarrow> bool" where
  "has_closing_quote [] = False"
| "has_closing_quote [ch] = (ch = ch_quote)"
| "has_closing_quote (ch # e # cs) =
     (if ch = ch_quote then True
      else if ch = ch_backslash then has_closing_quote cs
      else has_closing_quote (e # cs))"

text \<open>
  \<open>at_round text (cs, l, c)\<close>: the main loop of \<open>tokenize\<close>, run on \<open>text\<close>, begins a
  round with the remainder \<open>cs\<close> at line \<open>l\<close>, column \<open>c\<close>. There is one rule for the
  start and one for each branch of the loop body that goes on to a next round.
\<close>

inductive at_round :: "string \<Rightarrow> string \<times> nat \<times> nat \<Rightarrow> bool" for src :: string where
  start: "at_round src (src, 1, 1)"
| lparen: "at_round src (cs, l, c) \<Longrightarrow> skip_whitespace cs l c = (CHR ''('' # cs2, l1, c1) \<Longrightarrow>
           at_round src (cs2, l1, c1 + 1)"
| rparen: "at_round src (cs, l, c) \<Longrightarrow> skip_whitespace cs l c = (CHR '')'' # cs2, l1, c1) \<Longrightarrow>
           at_round src (cs2, l1, c1 + 1)"
| quoted: "at_round src (cs, l, c) \<Longrightarrow> skip_whitespace cs l c = (ch_quote # cs2, l1, c1) \<Longrightarrow>
           read_string (ch_quote # cs2) l1 c1 = Inr (tok, cs3, l3, c3) \<Longrightarrow>
           at_round src (cs3, l3, c3)"
| atom: "at_round src (cs, l, c) \<Longrightarrow> skip_whitespace cs l c = (ch # cs2, l1, c1) \<Longrightarrow>
         ch \<noteq> CHR ''('' \<Longrightarrow> ch \<noteq> CHR '')'' \<Longrightarrow> ch \<noteq> ch_quote \<Longrightarrow>
         read_atom (ch # cs2) l1 c1 = (tok, cs3, l3, c3) \<Longrightarrow>
         at_round src (cs3, l3, c3)"

section \<open>Tree query helpers (parser/sexpr.py)\<close>

fun is_keyed :: "string \<Rightarrow> sexpr \<Rightarrow> bool" where
  "is_keyed key (SList (Atom a # rest)) = (a = key)"
| "is_keyed key other = False"

fun items_of :: "sexpr \<Rightarrow> sexpr list" where
  "items_of (SList xs) = xs"
| "items_of (Atom a) = []"

text \<open>
  \<open>sexpr_get\<close> returns the first child that is a non-empty list with head \<open>key\<close>; the
  model returns the elements of that child. An atom has no children.
\<close>

fun sexpr_get :: "sexpr \<Rightarrow> string \<Rightarrow> sexpr list option" where
  "sexpr_get (Atom a) key = None"
| "sexpr_get (SList xs) key = map_option items_of (find (is_keyed key) xs)"


definition sexpr_get_value :: "sexpr \<Rightarrow> string \<Rightarrow> string option" where
  "sexpr_get_value expr key =
     (case sexpr_get expr key of
        Some (k # Atom val # rest) \<Rightarrow> Some val
      | _ \<Rightarrow> None)"

fun sexpr_has_flag :: "sexpr \<Rightarrow> string \<Rightarrow> bool" where
  "sexpr_has_flag (Atom a) flag = False"
| "sexpr_has_flag (SList xs) flag = (Atom flag \<in> set xs)"

section \<open>Python built-ins\<close>

text \<open>
  \<open>int(s)\<close> on a string: surrounding whitespace is dropped, a sign may follow, then
  decimal digits, with single underscores allowed between digits. \<open>None\<close> is
  \<open>ValueError\<close>. The whitespace that \<open>int\<close> drops is tab, newline, vertical tab, form
  feed, carriage return and space, and of the code points from 128 to 255 the two
  Unicode spaces 133 and 160; the separators 28 to 31, which \<open>str.isspace\<close> accepts,
  are not dropped: \<open>int\<close> raises on them. The interpreter's limit on the number of
  digits is not modelled.
\<close>

definition is_py_space :: "char \<Rightarrow> bool" where
  "is_py_space ch \<longleftrightarrow> of_char ch \<in> set [9, 10, 11, 12, 13, 32, 133, 160 :: nat]"

definition py_strip :: "string \<Rightarrow> string" where
  "py_strip s = rev (dropWhile is_py_space (rev (dropWhile is_py_space s)))"

definition is_digit :: "char \<Rightarrow> bool" where
  "is_digit ch \<longleftrightarrow> 48 \<le> (of_char ch :: nat) \<and> (of_char ch :: nat) \<le> 57"

definition digit_val :: "char \<Rightarrow> nat" where
  "digit_val ch = of_char ch - 48"

fun digits_acc :: "string \<Rightarrow> nat \<Rightarrow> nat option" where
  "digits_acc [] acc = Some acc"
| "digits_acc [ch] acc = (if is_digit ch then Some (10 * acc + digit_val ch) else None)"
| "digits_acc (ch # d # cs) acc =
     (if is_digit ch then digits_acc (d # cs) (10 * acc + digit_val ch)
      else if ch = CHR ''_'' \<and> is_digit d then digits_acc (d # cs) acc
      else None)"

definition py_nat :: "string \<Rightarrow> nat option" where
  "py_nat s = (case s of [] \<Rightarrow> None | ch # cs \<Rightarrow> if is_digit ch then digits_acc s 0 else None)"

definition py_int :: "string \<Rightarrow> int option" where
  "py_int s =
     (case py_strip s of
        [] \<Rightarrow> None
      | ch # cs \<Rightarrow>
          if ch = CHR ''-'' then map_option (\<lambda>n. - int n) (py_nat cs)
          else if ch = CHR ''+'' then map_option int (py_nat cs)
          else map_option int (py_nat (ch # cs)))"

text \<open>\<open>str(i)\<close> of an \<open>int\<close>.\<close>

fun str_nat :: "nat \<Rightarrow> string" where
  "str_nat n = (if n < 10 then [char_of (48 + n)] else str_nat (n div 10) @ [char_of (48 + n mod 10)])"

declare str_nat.simps [simp del]

definition py_str_int :: "int \<Rightarrow> string" where
  "py_str_int i = (if i < 0 then CHR ''-'' # str_nat (nat (- i)) else str_nat (nat i))"

text \<open>
  \<open>s.rsplit(sep, maxsplit)\<close> for a separator of one character: \<open>split_last\<close> cuts at
  the last separator.
\<close>

definition split_last :: "char \<Rightarrow> string \<Rightarrow> (string \<times> string) option" where
  "split_last sep s =
     (if sep \<in> set s
      then Some (rev (tl (dropWhile (\<lambda>ch. ch \<noteq> sep) (rev s))),
                 rev (takeWhile (\<lambda>ch. ch \<noteq> sep) (rev s)))
      else None)"

fun rsplit :: "char \<Rightarrow> nat \<Rightarrow> string \<Rightarrow> string list" where
  "rsplit sep 0 s = [s]"
| "rsplit sep (Suc n) s =
     (case split_last sep s of
        None \<Rightarrow> [s]
      | Some (a, b) \<Rightarrow> rsplit sep n a @ [b])"

text \<open>\<open>s.lower()\<close>, for the code points below 256.\<close>

definition lower_char :: "char \<Rightarrow> char" where
  "lower_char ch =
     (let n = (of_char ch :: nat) in
      if (65 \<le> n \<and> n \<le> 90) \<or> (192 \<le> n \<and> n \<le> 222 \<and> n \<noteq> 215) then char_of (n + 32) else ch)"

definition lower :: "string \<Rightarrow> string" where
  "lower s = map lower_char s"

text \<open>
  What the code does with floats is a parameter: \<open>py_float\<close> is \<open>float(s)\<close> on a string
  (\<open>None\<close> is \<open>ValueError\<close>), \<open>fmt6\<close> is the format \<open>.6f\<close>, \<open>flit\<close> gives the value of a
  numeric literal of the source text. Equality of \<open>'f\<close> stands for \<open>==\<close> on floats.
\<close>

record 'f float_ops =
  py_float :: "string \<Rightarrow> 'f option"
  fmt6 :: "'f \<Rightarrow> string"
  flit :: "string \<Rightarrow> 'f"

datatype py_exception = ValueError | IndexError

definition bind_exn :: "py_exception + 'a \<Rightarrow> ('a \<Rightarrow> py_exception + 'b) \<Rightarrow> py_exception + 'b" where
  "bind_exn m f = (case m of Inl e \<Rightarrow> Inl e | Inr x \<Rightarrow> f x)"

text \<open>\<open>float(e) if isinstance(e, str) else d\<close>.\<close>

fun float_or :: "'f float_ops \<Rightarrow> sexpr \<Rightarrow> 'f \<Rightarrow> py_exception + 'f" where
  "float_or F (Atom a) d = (case py_float F a of None \<Rightarrow> Inl ValueError | Some v \<Rightarrow> Inr v)"
| "float_or F (SList xs) d = Inr d"

definition sexpr_get_float :: "'f float_ops \<Rightarrow> sexpr \<Rightarrow> string \<Rightarrow> 'f option" where
  "sexpr_get_float F expr key =
     (case sexpr_get_value expr key of
        Some val \<Rightarrow> py_float F val
      | None \<Rightarrow> None)"

definition sexpr_get_int :: "sexpr \<Rightarrow> string \<Rightarrow> int option" where
  "sexpr_get_int expr key =
     (case sexpr_get_value expr key of
        Some val \<Rightarrow> py_int val
      | None \<Rightarrow> None)"

text \<open>\<open>x or d\<close> for an optional float, an optional int and an optional string.\<close>

definition or_float :: "'f float_ops \<Rightarrow> 'f option \<Rightarrow> 'f \<Rightarrow> 'f" where
  "or_float F x d = (case x of None \<Rightarrow> d | Some v \<Rightarrow> if v = flit F ''0.0'' then d else v)"

definition or_int :: "int option \<Rightarrow> int \<Rightarrow> int" where
  "or_int x d = (case x of None \<Rightarrow> d | Some v \<Rightarrow> if v = 0 then d else v)"

definition or_str :: "string option \<Rightarrow> string \<Rightarrow> string" where
  "or_str x d = (case x of None \<Rightarrow> d | Some v \<Rightarrow> if v = [] then d else v)"

section \<open>Enumerations (types/enums.py)\<close>

datatype PinElectricalType =
  INPUT | OUTPUT | BIDIRECTIONAL | TRI_STATE | PASSIVE | FREE | UNSPECIFIED
  | POWER_IN | POWER_OUT | OPEN_COLLECTOR | OPEN_EMITTER | NO_CONNECT

datatype PinShape =
  LINE | INVERTED | CLOCK | INVERTED_CLOCK | INPUT_LOW | CLOCK_LOW | OUTPUT_LOW
  | EDGE_CLOCK_HIGH | NON_LOGIC

text \<open>
  \<open>from_string\<close> is \<open>mapping.get(s.lower(), default)\<close>: it returns for every string and
  raises nothing.
\<close>

definition electrical_type_mapping :: "(string \<times> PinElectricalType) list" where
  "electrical_type_mapping =
     [(''input'', INPUT), (''output'', OUTPUT), (''bidirectional'', BIDIRECTIONAL),
      (''tri_state'', TRI_STATE), (''passive'', PASSIVE), (''free'', FREE),
      (''unspecified'', UNSPECIFIED), (''power_in'', POWER_IN), (''power_out'', POWER_OUT),
      (''open_collector'', OPEN_COLLECTOR), (''open_emitter'', OPEN_EMITTER),
      (''no_connect'', NO_CONNECT)]"

definition PinElectricalType_from_string :: "string \<Rightarrow> PinElectricalType" where
  "PinElectricalType_from_string s =
     (case map_of electrical_type_mapping (lower s) of Some v \<Rightarrow> v | None \<Rightarrow> UNSPECIFIED)"

definition shape_mapping :: "(string \<times> PinShape) list" where
  "shape_mapping =
     [(''line'', LINE), (''inverted'', INVERTED), (''clock'', CLOCK),
      (''inverted_clock'', INVERTED_CLOCK), (''input_low'', INPUT_LOW),
      (''clock_low'', CLOCK_LOW), (''output_low'', OUTPUT_LOW),
      (''edge_clock_high'', EDGE_CLOCK_HIGH), (''non_logic'', NON_LOGIC)]"

definition PinShape_from_string :: "string \<Rightarrow> PinShape" where
  "PinShape_from_string s =
     (case map_of shape_mapping (lower s) of Some v \<Rightarrow> v | None \<Rightarrow> LINE)"

text \<open>The \<open>value\<close> of an enum member, which the writer emits.\<close>

fun PinElectricalType_value :: "PinElectricalType \<Rightarrow> string" where
  "PinElectricalType_value INPUT = ''input''"
| "PinElectricalType_value OUTPUT = ''output''"
| "PinElectricalType_value BIDIRECTIONAL = ''bidirectional''"
| "PinElectricalType_value TRI_STATE = ''tri_state''"
| "PinElectricalType_value PASSIVE = ''passive''"
| "PinElectricalType_value FREE = ''free''"
| "PinElectricalType_value UNSPECIFIED = ''unspecified''"
| "PinElectricalType_value POWER_IN = ''power_in''"
| "PinElectricalType_value POWER_OUT = ''power_out''"
| "PinElectricalType_value OPEN_COLLECTOR = ''open_collector''"
| "PinElectricalType_value OPEN_EMITTER = ''open_emitter''"
| "PinElectricalType_value NO_CONNECT = ''no_connect''"

fun PinShape_value :: "PinShape \<Rightarrow> string" where
  "PinShape_value LINE = ''line''"
| "PinShape_value INVERTED = ''inverted''"
| "PinShape_value CLOCK = ''clock''"
| "PinShape_value INVERTED_CLOCK = ''inverted_clock''"
| "PinShape_value INPUT_LOW = ''input_low''"
| "PinShape_value CLOCK_LOW = ''clock_low''"
| "PinShape_value OUTPUT_LOW = ''output_low''"
| "PinShape_value EDGE_CLOCK_HIGH = ''edge_clock_high''"
| "PinShape_value NON_LOGIC = ''non_logic''"

section \<open>Symbol library types (types/symbol.py)\<close>

record 'f PinDef =
  pin_number :: string
  pin_name :: string
  pin_electrical_type :: PinElectricalType
  pin_shape :: PinShape
  pin_position :: "'f Position"
  pin_length :: 'f
  pin_name_effects :: "'f Effects option"
  pin_number_effects :: "'f Effects option"
  pin_hide :: bool

datatype 'f GraphicElement =
  Rectangle "'f Point" "'f Point" "'f Stroke" "'f Fill"
  | Circle "'f Point" 'f "'f Stroke" "'f Fill"
  | Arc "'f Point" "'f Point" "'f Point" "'f Stroke" "'f Fill"
  | Polyline "'f Point list" "'f Stroke" "'f Fill"
  | Text string "'f Position" "'f Effects option"

record 'f SymbolUnit =
  unit_name :: string
  unit_index :: int
  style_index :: int
  unit_pins :: "'f PinDef list"
  unit_graphics :: "'f GraphicElement list"

record 'f SymbolDef =
  sym_name :: string
  sym_properties :: "'f Property list"
  sym_units :: "'f SymbolUnit list"
  sym_in_bom :: bool
  sym_on_board :: bool
  sym_extends :: "string option"
  sym_power :: bool
  sym_pin_numbers_hide :: bool
  sym_pin_names_hide :: bool
  sym_pin_names_offset :: 'f


section \<open>Symbol library decoder (parser/symbol_parser.py)\<close>

text \<open>
  Every decoder takes the elements of the list it decodes. A decoder that calls
  \<open>float\<close> outside a \<open>try\<close> raises \<open>ValueError\<close> where \<open>float\<close> does; that is the
  left summand of its result.
\<close>

definition Position0 :: "'f float_ops \<Rightarrow> 'f Position" where
  "Position0 F = \<lparr>pos_x = flit F ''0'', pos_y = flit F ''0'', pos_angle = flit F ''0.0''\<rparr>"

definition Point0 :: "'f float_ops \<Rightarrow> 'f Point" where
  "Point0 F = \<lparr>pt_x = flit F ''0'', pt_y = flit F ''0''\<rparr>"

definition parse_position :: "'f float_ops \<Rightarrow> sexpr \<Rightarrow> py_exception + 'f Position" where
  "parse_position F expr =
     (case sexpr_get expr ''at'' of
        Some (k # a1 # a2 # rest) \<Rightarrow>
          bind_exn (float_or F a1 (flit F ''0.0'')) (\<lambda>x.
          bind_exn (float_or F a2 (flit F ''0.0'')) (\<lambda>y.
          bind_exn (case rest of a3 # _ \<Rightarrow> float_or F a3 (flit F ''0.0'')
                                | [] \<Rightarrow> Inr (flit F ''0.0'')) (\<lambda>angle.
          Inr \<lparr>pos_x = x, pos_y = y, pos_angle = angle\<rparr>)))
      | _ \<Rightarrow> Inr (Position0 F))"

definition Stroke0 :: "'f float_ops \<Rightarrow> 'f Stroke" where
  "Stroke0 F = \<lparr>stroke_width = flit F ''0'', stroke_type = ''default'', stroke_color = None\<rparr>"

definition parse_stroke :: "'f float_ops \<Rightarrow> sexpr \<Rightarrow> 'f Stroke" where
  "parse_stroke F expr =
     (case sexpr_get expr ''stroke'' of
        None \<Rightarrow> Stroke0 F
      | Some stroke_expr \<Rightarrow>
          \<lparr>stroke_width = or_float F (sexpr_get_float F (SList stroke_expr) ''width'') (flit F ''0.0''),
           stroke_type = or_str (sexpr_get_value (SList stroke_expr) ''type'') ''default'',
           stroke_color = None\<rparr>)"

definition parse_fill :: "sexpr \<Rightarrow> 'f Fill" where
  "parse_fill expr =
     (case sexpr_get expr ''fill'' of
        None \<Rightarrow> \<lparr>fill_type = ''none'', fill_color = None\<rparr>
      | Some fill_expr \<Rightarrow>
          \<lparr>fill_type = or_str (sexpr_get_value (SList fill_expr) ''type'') ''none'',
           fill_color = None\<rparr>)"

definition Font0 :: "'f float_ops \<Rightarrow> 'f Font" where
  "Font0 F =
     \<lparr>font_face = None, font_size_x = flit F ''1.27'', font_size_y = flit F ''1.27'',
      font_thickness = flit F ''0.254'', font_bold = False, font_italic = False,
      font_line_spacing = flit F ''1.0''\<rparr>"

definition parse_font :: "'f float_ops \<Rightarrow> sexpr \<Rightarrow> py_exception + 'f Font" where
  "parse_font F expr =
     (case sexpr_get expr ''font'' of
        None \<Rightarrow> Inr (Font0 F)
      | Some font_expr \<Rightarrow>
          bind_exn
            (case sexpr_get (SList font_expr) ''size'' of
               Some (k # s1 # s2 # rest) \<Rightarrow>
                 bind_exn (float_or F s1 (flit F ''1.27'')) (\<lambda>size_x.
                 bind_exn (float_or F s2 (flit F ''1.27'')) (\<lambda>size_y.
                 Inr (size_x, size_y)))
             | _ \<Rightarrow> Inr (flit F ''1.27'', flit F ''1.27''))
            (\<lambda>(size_x, size_y).
               Inr ((Font0 F)\<lparr>font_size_x := size_x, font_size_y := size_y,
                                font_bold := sexpr_has_flag (SList font_expr) ''bold'',
                                font_italic := sexpr_has_flag (SList font_expr) ''italic''\<rparr>)))"

text \<open>The loop over \<open>justify[1:]\<close> in \<open>_parse_effects\<close>.\<close>

definition is_justify_h :: "string \<Rightarrow> bool" where
  "is_justify_h item \<longleftrightarrow> item = ''left'' \<or> item = ''right''"

definition is_justify_v :: "string \<Rightarrow> bool" where
  "is_justify_v item \<longleftrightarrow> item = ''top'' \<or> item = ''bottom''"

fun justify_loop :: "sexpr list \<Rightarrow> string \<Rightarrow> string \<Rightarrow> string \<times> string" where
  "justify_loop [] justify_h justify_v = (justify_h, justify_v)"
| "justify_loop (Atom item # items) justify_h justify_v =
     (if is_justify_h item then justify_loop items item justify_v
      else if is_justify_v item then justify_loop items justify_h item
      else justify_loop items justify_h justify_v)"
| "justify_loop (SList xs # items) justify_h justify_v = justify_loop items justify_h justify_v"

definition Effects0 :: "'f float_ops \<Rightarrow> 'f Effects" where
  "Effects0 F =
     \<lparr>eff_font = Font0 F, eff_justify_h = ''center'', eff_justify_v = ''center'',
      eff_mirror = False, eff_hide = False\<rparr>"

definition parse_effects :: "'f float_ops \<Rightarrow> sexpr \<Rightarrow> py_exception + 'f Effects" where
  "parse_effects F expr =
     (case sexpr_get expr ''effects'' of
        None \<Rightarrow> Inr (Effects0 F)
      | Some effects_expr \<Rightarrow>
          bind_exn (parse_font F (SList effects_expr)) (\<lambda>font.
          (case (case sexpr_get (SList effects_expr) ''justify'' of
                   Some justify \<Rightarrow> justify_loop (tl justify) ''center'' ''center''
                 | None \<Rightarrow> (''center'', ''center'')) of
             (justify_h, justify_v) \<Rightarrow>
               Inr \<lparr>eff_font = font, eff_justify_h = justify_h, eff_justify_v = justify_v,
                    eff_mirror = False,
                    eff_hide = sexpr_has_flag (SList effects_expr) ''hide''\<rparr>)))"

text \<open>\<open>expr[i] if len(expr) > i and isinstance(expr[i], str) else d\<close>.\<close>

definition str_at :: "sexpr list \<Rightarrow> nat \<Rightarrow> string \<Rightarrow> string" where
  "str_at expr i d = (if i < length expr then (case expr ! i of Atom a \<Rightarrow> a | SList _ \<Rightarrow> d) else d)"

definition parse_property :: "'f float_ops \<Rightarrow> sexpr list \<Rightarrow> py_exception + 'f Property" where
  "parse_property F expr =
     bind_exn (parse_position F (SList expr)) (\<lambda>position.
     bind_exn (parse_effects F (SList expr)) (\<lambda>effects.
     Inr \<lparr>prop_name = str_at expr 1 '''', prop_value = str_at expr 2 '''',
          prop_id = or_int (sexpr_get_int (SList expr) ''id'') 0,
          prop_position = position, prop_effects = effects\<rparr>))"

text \<open>
  The scan at the head of \<open>_parse_pin\<close>: \<open>idx\<close> runs over the atoms that follow the
  head, up to the first list. \<open>PinElectricalType.from_string\<close> returns for every
  string, so the first \<open>try\<close> always ends in \<open>continue\<close>; the \<open>except\<close> branch and the
  second \<open>try\<close>, which would assign \<open>shape\<close>, are never entered.
\<close>

fun pin_type_scan ::
  "sexpr list \<Rightarrow> PinElectricalType \<Rightarrow> PinShape \<Rightarrow> PinElectricalType \<times> PinShape" where
  "pin_type_scan [] electrical_type shape = (electrical_type, shape)"
| "pin_type_scan (SList xs # rest) electrical_type shape = (electrical_type, shape)"
| "pin_type_scan (Atom val # rest) electrical_type shape =
     pin_type_scan rest (PinElectricalType_from_string val) shape"

text \<open>
  \<open>name_expr\<close> and \<open>number_expr\<close> of \<open>_parse_pin\<close>: the text and the effects of a
  \<open>(name ...)\<close> or \<open>(number ...)\<close> child with at least two elements.
\<close>

definition parse_pin_label ::
  "'f float_ops \<Rightarrow> sexpr \<Rightarrow> string \<Rightarrow> py_exception + (string \<times> 'f Effects option)" where
  "parse_pin_label F expr key =
     (case sexpr_get expr key of
        Some (k # v # rest) \<Rightarrow>
          bind_exn (parse_effects F (SList (k # v # rest))) (\<lambda>effects.
          Inr ((case v of Atom a \<Rightarrow> a | SList _ \<Rightarrow> ''''), Some effects))
      | _ \<Rightarrow> Inr ('''', None))"

definition parse_pin :: "'f float_ops \<Rightarrow> sexpr list \<Rightarrow> py_exception + 'f PinDef" where
  "parse_pin F expr =
     (case pin_type_scan (tl expr) UNSPECIFIED LINE of
        (electrical_type, shape) \<Rightarrow>
          bind_exn (parse_position F (SList expr)) (\<lambda>position.
          bind_exn (case sexpr_get (SList expr) ''length'' of
                      Some (k # v # rest) \<Rightarrow> float_or F v (flit F ''2.54'')
                    | _ \<Rightarrow> Inr (flit F ''2.54'')) (\<lambda>length.
          bind_exn (parse_pin_label F (SList expr) ''name'') (\<lambda>(name, name_effects).
          bind_exn (parse_pin_label F (SList expr) ''number'') (\<lambda>(number, number_effects).
          Inr \<lparr>pin_number = number, pin_name = name,
               pin_electrical_type = electrical_type, pin_shape = shape,
               pin_position = position, pin_length = length,
               pin_name_effects = name_effects, pin_number_effects = number_effects,
               pin_hide = sexpr_has_flag (SList expr) ''hide''\<rparr>)))))"

text \<open>A child \<open>(key x y ...)\<close> read as a point, the origin if it is absent or too short.\<close>

definition point_at :: "'f float_ops \<Rightarrow> sexpr \<Rightarrow> string \<Rightarrow> py_exception + 'f Point" where
  "point_at F expr key =
     (case sexpr_get expr key of
        Some (k # a1 # a2 # rest) \<Rightarrow>
          bind_exn (float_or F a1 (flit F ''0.0'')) (\<lambda>x.
          bind_exn (float_or F a2 (flit F ''0.0'')) (\<lambda>y.
          Inr \<lparr>pt_x = x, pt_y = y\<rparr>))
      | _ \<Rightarrow> Inr (Point0 F))"

definition parse_rectangle :: "'f float_ops \<Rightarrow> sexpr list \<Rightarrow> py_exception + 'f GraphicElement" where
  "parse_rectangle F expr =
     bind_exn (point_at F (SList expr) ''start'') (\<lambda>start.
     bind_exn (point_at F (SList expr) ''end'') (\<lambda>end.
     Inr (Rectangle start end (parse_stroke F (SList expr)) (parse_fill (SList expr)))))"

definition parse_circle :: "'f float_ops \<Rightarrow> sexpr list \<Rightarrow> py_exception + 'f GraphicElement" where
  "parse_circle F expr =
     bind_exn (point_at F (SList expr) ''center'') (\<lambda>center.
     bind_exn (case sexpr_get (SList expr) ''radius'' of
                 Some (k # v # rest) \<Rightarrow> float_or F v (flit F ''0.0'')
               | _ \<Rightarrow> Inr (flit F ''0.0'')) (\<lambda>radius.
     Inr (Circle center radius (parse_stroke F (SList expr)) (parse_fill (SList expr)))))"

definition parse_arc :: "'f float_ops \<Rightarrow> sexpr list \<Rightarrow> py_exception + 'f GraphicElement" where
  "parse_arc F expr =
     bind_exn (point_at F (SList expr) ''start'') (\<lambda>start.
     bind_exn (point_at F (SList expr) ''mid'') (\<lambda>mid.
     bind_exn (point_at F (SList expr) ''end'') (\<lambda>end.
     Inr (Arc start mid end (parse_stroke F (SList expr)) (parse_fill (SList expr))))))"

definition is_xy :: "sexpr \<Rightarrow> bool" where
  "is_xy item \<longleftrightarrow> (case item of SList (h # a1 # a2 # rest) \<Rightarrow> h = Atom ''xy'' | _ \<Rightarrow> False)"

fun polyline_points :: "'f float_ops \<Rightarrow> sexpr list \<Rightarrow> 'f Point list \<Rightarrow> py_exception + 'f Point list" where
  "polyline_points F [] points = Inr points"
| "polyline_points F (item # items) points =
     (if is_xy item
      then bind_exn (float_or F (items_of item ! 1) (flit F ''0.0'')) (\<lambda>x.
           bind_exn (float_or F (items_of item ! 2) (flit F ''0.0'')) (\<lambda>y.
           polyline_points F items (points @ [\<lparr>pt_x = x, pt_y = y\<rparr>])))
      else polyline_points F items points)"

definition parse_polyline :: "'f float_ops \<Rightarrow> sexpr list \<Rightarrow> py_exception + 'f GraphicElement" where
  "parse_polyline F expr =
     bind_exn (case sexpr_get (SList expr) ''pts'' of
                 Some pts_expr \<Rightarrow> polyline_points F (tl pts_expr) []
               | None \<Rightarrow> Inr []) (\<lambda>points.
     Inr (Polyline points (parse_stroke F (SList expr)) (parse_fill (SList expr))))"

definition parse_text :: "'f float_ops \<Rightarrow> sexpr list \<Rightarrow> py_exception + 'f GraphicElement" where
  "parse_text F expr =
     bind_exn (parse_position F (SList expr)) (\<lambda>position.
     bind_exn (parse_effects F (SList expr)) (\<lambda>effects.
     Inr (Text (str_at expr 1 '''') position (Some effects))))"

text \<open>
  The unit and style index of \<open>_parse_symbol_unit\<close>. Both start at 1; inside the
  \<open>try\<close>, \<open>unit_index\<close> is assigned before \<open>int(parts[-1])\<close> is evaluated, so it keeps
  its new value when that second \<open>int\<close> raises.
\<close>

definition unit_indices :: "string \<Rightarrow> int \<times> int" where
  "unit_indices name =
     (let parts = rsplit (CHR ''_'') 2 name in
      if length parts \<ge> 3
      then (case py_int (parts ! (length parts - 2)) of
              None \<Rightarrow> (1, 1)
            | Some u \<Rightarrow>
                (case py_int (parts ! (length parts - 1)) of
                   None \<Rightarrow> (u, 1)
                 | Some s \<Rightarrow> (u, s)))
      else (1, 1))"

text \<open>A loop over items that stops at the first exception.\<close>

fun fold_exn :: "('a \<Rightarrow> 's \<Rightarrow> py_exception + 's) \<Rightarrow> 'a list \<Rightarrow> 's \<Rightarrow> py_exception + 's" where
  "fold_exn f [] st = Inr st"
| "fold_exn f (x # xs) st = (case f x st of Inl e \<Rightarrow> Inl e | Inr st' \<Rightarrow> fold_exn f xs st')"

text \<open>One round of the loop over \<open>expr[2:]\<close> in \<open>_parse_symbol_unit\<close>.\<close>

definition unit_item ::
  "'f float_ops \<Rightarrow> sexpr \<Rightarrow> 'f PinDef list \<times> 'f GraphicElement list
     \<Rightarrow> py_exception + ('f PinDef list \<times> 'f GraphicElement list)" where
  "unit_item F item st =
     (case st of (pins, graphics) \<Rightarrow>
        (case item of
           SList (Atom element_type # rest) \<Rightarrow>
             let xs = Atom element_type # rest in
             if element_type = ''pin''
             then bind_exn (parse_pin F xs) (\<lambda>p. Inr (pins @ [p], graphics))
             else if element_type = ''rectangle''
             then bind_exn (parse_rectangle F xs) (\<lambda>g. Inr (pins, graphics @ [g]))
             else if element_type = ''circle''
             then bind_exn (parse_circle F xs) (\<lambda>g. Inr (pins, graphics @ [g]))
             else if element_type = ''arc''
             then bind_exn (parse_arc F xs) (\<lambda>g. Inr (pins, graphics @ [g]))
             else if element_type = ''polyline''
             then bind_exn (parse_polyline F xs) (\<lambda>g. Inr (pins, graphics @ [g]))
             else if element_type = ''text''
             then bind_exn (parse_text F xs) (\<lambda>g. Inr (pins, graphics @ [g]))
             else Inr st
         | _ \<Rightarrow> Inr st))"

definition parse_symbol_unit :: "'f float_ops \<Rightarrow> sexpr list \<Rightarrow> py_exception + 'f SymbolUnit" where
  "parse_symbol_unit F expr =
     (let name = str_at expr 1 '''' in
      case unit_indices name of
        (unit_index', style_index') \<Rightarrow>
          bind_exn (fold_exn (unit_item F) (drop 2 expr) ([], [])) (\<lambda>(pins, graphics).
          Inr \<lparr>unit_name = name, unit_index = unit_index', style_index = style_index',
               unit_pins = pins, unit_graphics = graphics\<rparr>))"

text \<open>
  One round of the loop over \<open>expr[2:]\<close> in \<open>_parse_symbol_def\<close>; the state is the
  definition under construction, whose fields are the local variables of the loop.
\<close>

definition second_is_yes :: "sexpr list \<Rightarrow> bool" where
  "second_is_yes item = (if length item > 1 then item ! 1 = Atom ''yes'' else True)"

definition symbol_def_item ::
  "'f float_ops \<Rightarrow> sexpr \<Rightarrow> 'f SymbolDef \<Rightarrow> py_exception + 'f SymbolDef" where
  "symbol_def_item F item st =
     (case item of
        SList (Atom element_type # rest) \<Rightarrow>
          let xs = Atom element_type # rest in
          if element_type = ''property''
          then bind_exn (parse_property F xs) (\<lambda>p. Inr (st\<lparr>sym_properties := sym_properties st @ [p]\<rparr>))
          else if element_type = ''symbol''
          then bind_exn (parse_symbol_unit F xs) (\<lambda>u. Inr (st\<lparr>sym_units := sym_units st @ [u]\<rparr>))
          else if element_type = ''in_bom'' then Inr (st\<lparr>sym_in_bom := second_is_yes xs\<rparr>)
          else if element_type = ''on_board'' then Inr (st\<lparr>sym_on_board := second_is_yes xs\<rparr>)
          else if element_type = ''extends''
          then Inr (st\<lparr>sym_extends := (case rest of Atom a # _ \<Rightarrow> Some a | _ \<Rightarrow> None)\<rparr>)
          else if element_type = ''power'' then Inr (st\<lparr>sym_power := True\<rparr>)
          else if element_type = ''pin_numbers''
          then Inr (st\<lparr>sym_pin_numbers_hide := sexpr_has_flag (SList xs) ''hide''\<rparr>)
          else if element_type = ''pin_names''
          then Inr (st\<lparr>sym_pin_names_hide := sexpr_has_flag (SList xs) ''hide'',
                        sym_pin_names_offset :=
                          (case sexpr_get_float F (SList xs) ''offset'' of
                             Some offset \<Rightarrow> offset
                           | None \<Rightarrow> sym_pin_names_offset st)\<rparr>)
          else Inr st
      | _ \<Rightarrow> Inr st)"

definition parse_symbol_def :: "'f float_ops \<Rightarrow> sexpr list \<Rightarrow> py_exception + 'f SymbolDef" where
  "parse_symbol_def F expr =
     fold_exn (symbol_def_item F) (drop 2 expr)
       \<lparr>sym_name = str_at expr 1 '''', sym_properties = [], sym_units = [],
        sym_in_bom = True, sym_on_board = True, sym_extends = None, sym_power = False,
        sym_pin_numbers_hide = False, sym_pin_names_hide = False,
        sym_pin_names_offset = flit F ''0.508''\<rparr>"

section \<open>Written texts and their tokens\<close>






section \<open>Symbol library encoder (writer/symbol_writer.py)\<close>

text \<open>
  \<open>format_number\<close>: the format \<open>.6f\<close>, then trailing zeros and a trailing point are
  removed where the text has a point, and \<open>-0\<close> becomes \<open>0\<close>.
\<close>

definition rstrip :: "char \<Rightarrow> string \<Rightarrow> string" where
  "rstrip ch s = rev (dropWhile (\<lambda>x. x = ch) (rev s))"

definition format_number :: "'f float_ops \<Rightarrow> 'f \<Rightarrow> string" where
  "format_number F v =
     (let formatted = fmt6 F v;
          formatted = (if CHR ''.'' \<in> set formatted
                       then rstrip (CHR ''.'') (rstrip (CHR ''0'') formatted)
                       else formatted)
      in if formatted = ''-0'' then ''0'' else formatted)"

text \<open>
  \<open>make_sexpr\<close> turns a float argument into the atom of \<open>format_number\<close>, an int into
  the atom of \<open>str\<close>, and leaves strings and lists as they are; the model writes the
  resulting list at each call.
\<close>

definition fnum :: "'f float_ops \<Rightarrow> 'f \<Rightarrow> sexpr" where
  "fnum F v = Atom (format_number F v)"

definition inum :: "int \<Rightarrow> sexpr" where
  "inum i = Atom (py_str_int i)"

definition write_position :: "'f float_ops \<Rightarrow> 'f Position \<Rightarrow> sexpr" where
  "write_position F pos =
     (if pos_angle pos \<noteq> flit F ''0''
      then SList [Atom ''at'', fnum F (pos_x pos), fnum F (pos_y pos), fnum F (pos_angle pos)]
      else SList [Atom ''at'', fnum F (pos_x pos), fnum F (pos_y pos)])"

definition write_stroke :: "'f float_ops \<Rightarrow> 'f Stroke \<Rightarrow> sexpr" where
  "write_stroke F stroke =
     SList [Atom ''stroke'',
            SList [Atom ''width'', fnum F (stroke_width stroke)],
            SList [Atom ''type'', Atom (stroke_type stroke)],
            (case stroke_color stroke of
               Some col \<Rightarrow> SList [Atom ''color'', inum (col_r col), inum (col_g col),
                                  inum (col_b col), fnum F (col_a col)]
             | None \<Rightarrow> SList [Atom ''color'', inum 0, inum 0, inum 0, inum 0])]"

definition write_fill :: "'f Fill \<Rightarrow> sexpr" where
  "write_fill fill = SList [Atom ''fill'', SList [Atom ''type'', Atom (fill_type fill)]]"

definition write_font :: "'f float_ops \<Rightarrow> 'f Effects \<Rightarrow> sexpr" where
  "write_font F effects =
     (let font = eff_font effects in
      SList ([Atom ''font'', SList [Atom ''size'', fnum F (font_size_x font), fnum F (font_size_y font)]]
             @ (if font_bold font then [Atom ''bold''] else [])
             @ (if font_italic font then [Atom ''italic''] else [])))"

definition write_effects :: "'f float_ops \<Rightarrow> 'f Effects \<Rightarrow> sexpr" where
  "write_effects F effects =
     SList ([Atom ''effects'', write_font F effects]
            @ (if eff_justify_h effects \<noteq> ''center'' \<or> eff_justify_v effects \<noteq> ''center''
               then [SList ([Atom ''justify'']
                            @ (if eff_justify_h effects \<noteq> ''center'' then [Atom (eff_justify_h effects)] else [])
                            @ (if eff_justify_v effects \<noteq> ''center'' then [Atom (eff_justify_v effects)] else []))]
               else [])
            @ (if eff_hide effects then [Atom ''hide''] else []))"

definition write_property :: "'f float_ops \<Rightarrow> 'f Property \<Rightarrow> sexpr" where
  "write_property F prop =
     SList [Atom ''property'', Atom (prop_name prop), Atom (prop_value prop),
            SList [Atom ''id'', inum (prop_id prop)],
            write_position F (prop_position prop),
            write_effects F (prop_effects prop)]"

definition default_pin_effects :: "'f float_ops \<Rightarrow> sexpr" where
  "default_pin_effects F =
     SList [Atom ''effects'',
            SList [Atom ''font'', SList [Atom ''size'', fnum F (flit F ''1.0''), fnum F (flit F ''1.0'')]]]"

definition write_pin :: "'f float_ops \<Rightarrow> 'f PinDef \<Rightarrow> sexpr" where
  "write_pin F pin =
     SList ([Atom ''pin'', Atom (PinElectricalType_value (pin_electrical_type pin)),
             Atom (PinShape_value (pin_shape pin)),
             write_position F (pin_position pin),
             SList [Atom ''length'', fnum F (pin_length pin)],
             SList [Atom ''name'', Atom (pin_name pin),
                    (case pin_name_effects pin of
                       Some e \<Rightarrow> write_effects F e
                     | None \<Rightarrow> default_pin_effects F)],
             SList [Atom ''number'', Atom (pin_number pin),
                    (case pin_number_effects pin of
                       Some e \<Rightarrow> write_effects F e
                     | None \<Rightarrow> default_pin_effects F)]]
            @ (if pin_hide pin then [Atom ''hide''] else []))"

definition write_xy :: "'f float_ops \<Rightarrow> string \<Rightarrow> 'f Point \<Rightarrow> sexpr" where
  "write_xy F key pt = SList [Atom key, fnum F (pt_x pt), fnum F (pt_y pt)]"

fun write_graphic :: "'f float_ops \<Rightarrow> 'f GraphicElement \<Rightarrow> sexpr" where
  "write_graphic F (Rectangle start end stroke fill) =
     SList [Atom ''rectangle'', write_xy F ''start'' start, write_xy F ''end'' end,
            write_stroke F stroke, write_fill fill]"
| "write_graphic F (Circle center radius stroke fill) =
     SList [Atom ''circle'', write_xy F ''center'' center, SList [Atom ''radius'', fnum F radius],
            write_stroke F stroke, write_fill fill]"
| "write_graphic F (Arc start mid end stroke fill) =
     SList [Atom ''arc'', write_xy F ''start'' start, write_xy F ''mid'' mid, write_xy F ''end'' end,
            write_stroke F stroke, write_fill fill]"
| "write_graphic F (Polyline points stroke fill) =
     SList [Atom ''polyline'', SList (Atom ''pts'' # map (write_xy F ''xy'') points),
            write_stroke F stroke, write_fill fill]"
| "write_graphic F (Text txt position effects) =
     SList ([Atom ''text'', Atom txt, write_position F position]
            @ (case effects of Some e \<Rightarrow> [write_effects F e] | None \<Rightarrow> []))"

definition write_symbol_unit :: "'f float_ops \<Rightarrow> 'f SymbolUnit \<Rightarrow> sexpr" where
  "write_symbol_unit F u =
     SList ([Atom ''symbol'', Atom (unit_name u)]
            @ map (write_graphic F) (unit_graphics u)
            @ map (write_pin F) (unit_pins u))"

definition yes_no :: "bool \<Rightarrow> sexpr" where
  "yes_no b = Atom (if b then ''yes'' else ''no'')"

definition write_symbol_def :: "'f float_ops \<Rightarrow> 'f SymbolDef \<Rightarrow> sexpr" where
  "write_symbol_def F symb =
     SList ([Atom ''symbol'', Atom (sym_name symb),
             SList [Atom ''in_bom'', yes_no (sym_in_bom symb)],
             SList [Atom ''on_board'', yes_no (sym_on_board symb)]]
            @ (case sym_extends symb of
                 Some e \<Rightarrow> if e \<noteq> [] then [SList [Atom ''extends'', Atom e]] else []
               | None \<Rightarrow> [])
            @ (if sym_power symb then [SList [Atom ''power'']] else [])
            @ map (write_property F) (sym_properties symb)
            @ (if sym_pin_numbers_hide symb then [SList [Atom ''pin_numbers'', Atom ''hide'']] else [])
            @ (if sym_pin_names_hide symb then [SList [Atom ''pin_names'', Atom ''hide'']] else [])
            @ (if sym_pin_names_offset symb \<noteq> flit F ''0.508''
               then [SList [Atom ''pin_names'', SList [Atom ''offset'', fnum F (sym_pin_names_offset symb)]]]
               else [])
            @ map (write_symbol_unit F) (sym_units symb))"



section \<open>Decoding a whole file\<close>


record SchematicParseError =
  sche_message :: string
  sche_context :: string

text \<open>\<open>str(err)\<close> of a \<open>ParseError\<close>.\<close>

definition str_ParseError :: "parse_error \<Rightarrow> string" where
  "str_ParseError err =
     ''Parse error at line '' @ str_nat (line err) @ '', column '' @ str_nat (column err)
       @ '': '' @ message err"

text \<open>
  \<open>f"{x}"\<close> of a tree: an atom is its text; the text of a list is Python's \<open>str\<close> of a
  list, a parameter.
\<close>

fun format_expr :: "(sexpr list \<Rightarrow> string) \<Rightarrow> sexpr \<Rightarrow> string" where
  "format_expr str_list (Atom a) = a"
| "format_expr str_list (SList xs) = str_list xs"




section \<open>Schematic decoder, top level (parser/schematic_parser.py)\<close>

text \<open>
  \<open>parse_schematic\<close> from the parsed tree on. The decoders that it calls for the parts
  of a schematic are parameters: \<open>'el\<close> is a decoded part, \<open>'g\<close> the state of the random
  source behind \<open>UUID.generate\<close>, which a decoder may advance, and a decoder may raise.
  What is proved below about \<open>decode_schematic\<close> holds for every such decoder, so also
  for \<open>_parse_uuid\<close>, \<open>_parse_page\<close>, \<open>_parse_title_block\<close>, \<open>_parse_wire\<close> and the others
  of the source.
\<close>

type_synonym ('el, 'g) decoder = "sexpr list \<Rightarrow> 'g \<Rightarrow> py_exception + ('el \<times> 'g)"

record ('el, 'g) schematic_decoders =
  dec_uuid :: "('el, 'g) decoder"
  dec_page :: "('el, 'g) decoder"
  dec_title_block :: "('el, 'g) decoder"
  title_block_default :: 'el
  dec_wire :: "('el, 'g) decoder"
  dec_bus :: "('el, 'g) decoder"
  dec_junction :: "('el, 'g) decoder"
  dec_no_connect :: "('el, 'g) decoder"
  dec_label :: "('el, 'g) decoder"
  dec_global_label :: "('el, 'g) decoder"
  dec_hierarchical_label :: "('el, 'g) decoder"
  dec_symbol :: "('el, 'g) decoder"
  dec_sheet :: "('el, 'g) decoder"
  dec_text :: "('el, 'g) decoder"

record 'el Schematic =
  sch_version :: string
  sch_generator :: string
  sch_uuid :: 'el
  sch_page :: 'el
  sch_title_block :: 'el
  sch_wires :: "'el list"
  sch_buses :: "'el list"
  sch_junctions :: "'el list"
  sch_no_connects :: "'el list"
  sch_labels :: "'el list"
  sch_global_labels :: "'el list"
  sch_hierarchical_labels :: "'el list"
  sch_symbols :: "'el list"
  sch_sheets :: "'el list"
  sch_texts :: "'el list"

text \<open>
  One round of the loop \<open>for item in expr\<close>; the state is the schematic under
  construction, whose list fields are the lists of the loop, and the random source.
\<close>

definition schematic_item ::
  "('el, 'g) schematic_decoders \<Rightarrow> sexpr \<Rightarrow> 'el Schematic \<times> 'g
     \<Rightarrow> py_exception + ('el Schematic \<times> 'g)" where
  "schematic_item D item st =
     (case st of (sch, g) \<Rightarrow>
        (case item of
           SList (Atom element_type # rest) \<Rightarrow>
             let xs = Atom element_type # rest in
             if element_type = ''wire''
             then bind_exn (dec_wire D xs g) (\<lambda>(e, g'). Inr (sch\<lparr>sch_wires := sch_wires sch @ [e]\<rparr>, g'))
             else if element_type = ''bus''
             then bind_exn (dec_bus D xs g) (\<lambda>(e, g'). Inr (sch\<lparr>sch_buses := sch_buses sch @ [e]\<rparr>, g'))
             else if element_type = ''junction''
             then bind_exn (dec_junction D xs g)
                    (\<lambda>(e, g'). Inr (sch\<lparr>sch_junctions := sch_junctions sch @ [e]\<rparr>, g'))
             else if element_type = ''no_connect''
             then bind_exn (dec_no_connect D xs g)
                    (\<lambda>(e, g'). Inr (sch\<lparr>sch_no_connects := sch_no_connects sch @ [e]\<rparr>, g'))
             else if element_type = ''label''
             then bind_exn (dec_label D xs g) (\<lambda>(e, g'). Inr (sch\<lparr>sch_labels := sch_labels sch @ [e]\<rparr>, g'))
             else if element_type = ''global_label''
             then bind_exn (dec_global_label D xs g)
                    (\<lambda>(e, g'). Inr (sch\<lparr>sch_global_labels := sch_global_labels sch @ [e]\<rparr>, g'))
             else if element_type = ''hierarchical_label''
             then bind_exn (dec_hierarchical_label D xs g)
                    (\<lambda>(e, g'). Inr (sch\<lparr>sch_hierarchical_labels := sch_hierarchical_labels sch @ [e]\<rparr>, g'))
             else if element_type = ''symbol''
             then bind_exn (dec_symbol D xs g) (\<lambda>(e, g'). Inr (sch\<lparr>sch_symbols := sch_symbols sch @ [e]\<rparr>, g'))
             else if element_type = ''sheet''
             then bind_exn (dec_sheet D xs g) (\<lambda>(e, g'). Inr (sch\<lparr>sch_sheets := sch_sheets sch @ [e]\<rparr>, g'))
             else if element_type = ''text''
             then bind_exn (dec_text D xs g) (\<lambda>(e, g'). Inr (sch\<lparr>sch_texts := sch_texts sch @ [e]\<rparr>, g'))
             else Inr st
         | _ \<Rightarrow> Inr st))"

definition decode_schematic ::
  "('el, 'g) schematic_decoders \<Rightarrow> 'g \<Rightarrow> (sexpr list \<Rightarrow> string) \<Rightarrow> sexpr
     \<Rightarrow> py_exception + (SchematicParseError + 'el Schematic)" where
  "decode_schematic D g str_list expr =
     (case expr of
        Atom a \<Rightarrow> Inr (Inl \<lparr>sche_message = ''Empty or invalid schematic'', sche_context = ''''\<rparr>)
      | SList [] \<Rightarrow> Inr (Inl \<lparr>sche_message = ''Empty or invalid schematic'', sche_context = ''''\<rparr>)
      | SList (head # rest) \<Rightarrow>
          if head \<noteq> Atom ''kicad_sch''
          then Inr (Inl \<lparr>sche_message = ''Expected kicad_sch, got '' @ format_expr str_list head,
                         sche_context = ''''\<rparr>)
          else
            bind_exn (dec_uuid D (head # rest) g) (\<lambda>(uuid, g1).
            bind_exn (dec_page D (head # rest) g1) (\<lambda>(page, g2).
            bind_exn (case sexpr_get expr ''title_block'' of
                        Some tb_expr \<Rightarrow> dec_title_block D tb_expr g2
                      | None \<Rightarrow> Inr (title_block_default D, g2)) (\<lambda>(title_block, g3).
            bind_exn (fold_exn (schematic_item D) (head # rest)
                        (\<lparr>sch_version = or_str (sexpr_get_value expr ''version'') ''20231120'',
                          sch_generator = or_str (sexpr_get_value expr ''generator'') ''unknown'',
                          sch_uuid = uuid, sch_page = page, sch_title_block = title_block,
                          sch_wires = [], sch_buses = [], sch_junctions = [],
                          sch_no_connects = [], sch_labels = [], sch_global_labels = [],
                          sch_hierarchical_labels = [], sch_symbols = [], sch_sheets = [],
                          sch_texts = []\<rparr>, g3)) (\<lambda>(sch, g4).
            Inr (Inr sch))))))"

definition parse_schematic ::
  "('el, 'g) schematic_decoders \<Rightarrow> 'g \<Rightarrow> (sexpr list \<Rightarrow> string) \<Rightarrow> string
     \<Rightarrow> py_exception + (SchematicParseError + 'el Schematic)" where
  "parse_schematic D g str_list text =
     (case parse_sexpr text of
        Inl err \<Rightarrow> Inr (Inl \<lparr>sche_message = str_ParseError err, sche_context = ''''\<rparr>)
      | Inr expr \<Rightarrow> decode_schematic D g str_list expr)"

section \<open>Example libraries and decoders\<close>








section \<open>Properties\<close>

subsection \<open>SymbolInstance accessors and with_property\<close>

lemma reference_loop_absent:
  "list_all (\<lambda>p. prop_name p \<noteq> ''Reference'') props \<Longrightarrow> reference_loop props = ''?''"
  by (induction props) auto

lemma value_loop_absent:
  "list_all (\<lambda>p. prop_name p \<noteq> ''Value'') props \<Longrightarrow> value_loop props = ''''"
  by (induction props) auto

lemma footprint_loop_absent:
  "list_all (\<lambda>p. prop_name p \<noteq> ''Footprint'') props \<Longrightarrow> footprint_loop props = None"
  by (induction props) auto

lemma reference_loop_first:
  "list_all (\<lambda>q. prop_name q \<noteq> ''Reference'') pre \<Longrightarrow> prop_name p = ''Reference'' \<Longrightarrow>
   reference_loop (pre @ p # post) = prop_value p"
  by (induction pre) auto

lemma value_loop_first:
  "list_all (\<lambda>q. prop_name q \<noteq> ''Value'') pre \<Longrightarrow> prop_name p = ''Value'' \<Longrightarrow>
   value_loop (pre @ p # post) = prop_value p"
  by (induction pre) auto

lemma footprint_loop_first:
  "list_all (\<lambda>q. prop_name q \<noteq> ''Footprint'') pre \<Longrightarrow> prop_name p = ''Footprint'' \<Longrightarrow>
   footprint_loop (pre @ p # post) = Some (prop_value p)"
  by (induction pre) auto

text \<open>
  Claim C9. With no property named "Reference" the accessor \<open>reference\<close> returns "?";
  with none named "Value", \<open>value\<close> returns the empty string; with none named
  "Footprint", \<open>footprint\<close> returns \<open>None\<close>. Where the name occurs, also more than once,
  each accessor returns the value of the first property of that name in list order:
  the one that no property of the same name precedes.
\<close>

theorem symbol_instance_accessors:
  "(list_all (\<lambda>p. prop_name p \<noteq> ''Reference'') (si_properties s) \<longrightarrow> reference s = ''?'')
   \<and> (list_all (\<lambda>p. prop_name p \<noteq> ''Value'') (si_properties s) \<longrightarrow> symbol_value s = '''')
   \<and> (list_all (\<lambda>p. prop_name p \<noteq> ''Footprint'') (si_properties s) \<longrightarrow> footprint s = None)
   \<and> (si_properties t = pre @ p # post \<and> list_all (\<lambda>q. prop_name q \<noteq> prop_name p) pre \<longrightarrow>
        (prop_name p = ''Reference'' \<longrightarrow> reference t = prop_value p)
        \<and> (prop_name p = ''Value'' \<longrightarrow> symbol_value t = prop_value p)
        \<and> (prop_name p = ''Footprint'' \<longrightarrow> footprint t = Some (prop_value p)))"
  by (auto simp: reference_def symbol_value_def footprint_def
        reference_loop_absent value_loop_absent footprint_loop_absent
        reference_loop_first value_loop_first footprint_loop_first)

theorem symbol_instance_accessors_witness:
  "reference (ex_instance [ex_prop ''Datasheet'' ''d'']) = ''?''
   \<and> symbol_value (ex_instance [ex_prop ''Datasheet'' ''d'']) = ''''
   \<and> footprint (ex_instance [ex_prop ''Datasheet'' ''d'']) = None
   \<and> reference (ex_instance [ex_prop ''Value'' ''10k'', ex_prop ''Reference'' ''R1'',
                              ex_prop ''Reference'' ''R2'']) = ''R1''
   \<and> symbol_value (ex_instance [ex_prop ''Value'' ''10k'', ex_prop ''Value'' ''22k'']) = ''10k''
   \<and> footprint (ex_instance [ex_prop ''Footprint'' ''F1'', ex_prop ''Footprint'' ''F2''])
       = Some ''F1''"
  using
    symbol_instance_accessors [of "ex_instance [ex_prop ''Datasheet'' ''d'']"
      "ex_instance [ex_prop ''Value'' ''10k'', ex_prop ''Reference'' ''R1'', ex_prop ''Reference'' ''R2'']"
      "[ex_prop ''Value'' ''10k'']" "ex_prop ''Reference'' ''R1''" "[ex_prop ''Reference'' ''R2'']"]
    symbol_instance_accessors [of "ex_instance [ex_prop ''Datasheet'' ''d'']"
      "ex_instance [ex_prop ''Value'' ''10k'', ex_prop ''Value'' ''22k'']"
      "[]" "ex_prop ''Value'' ''10k''" "[ex_prop ''Value'' ''22k'']"]
    symbol_instance_accessors [of "ex_instance [ex_prop ''Datasheet'' ''d'']"
      "ex_instance [ex_prop ''Footprint'' ''F1'', ex_prop ''Footprint'' ''F2'']"
      "[]" "ex_prop ''Footprint'' ''F1''" "[ex_prop ''Footprint'' ''F2'']"]
  by (simp add: ex_instance_def ex_prop_def)

lemma with_property_loop_eq:
  "with_property_loop ps prop acc found =
     (acc @ map (\<lambda>q. if prop_name q = prop_name prop then prop else q) ps,
      found \<or> list_ex (\<lambda>q. prop_name q = prop_name prop) ps)"
  by (induction ps arbitrary: acc found) auto

text \<open>
  Claim C10. \<open>with_property\<close> returns an instance that differs from \<open>s\<close> in the property
  list only. If some property of \<open>s\<close> has the name of \<open>p\<close>, the new list is the old one
  with every property of that name replaced by \<open>p\<close>, in the same order; otherwise it is
  the old list with \<open>p\<close> appended.
\<close>

theorem with_property_frame:
  "with_property s p =
     s\<lparr>si_properties :=
         (if list_ex (\<lambda>q. prop_name q = prop_name p) (si_properties s)
          then map (\<lambda>q. if prop_name q = prop_name p then p else q) (si_properties s)
          else si_properties s @ [p])\<rparr>"
proof -
  have "list_ex (\<lambda>q. prop_name q = prop_name p) ps \<or>
        map (\<lambda>q. if prop_name q = prop_name p then p else q) ps = ps" for ps
    by (induction ps) auto
  from this[of "si_properties s"] show ?thesis
    by (cases s) (auto simp: with_property_def with_property_loop_eq)
qed

theorem with_property_frame_witness:
  "with_property (ex_instance [ex_prop ''Value'' ''10k'', ex_prop ''Reference'' ''R1'',
                               ex_prop ''Value'' ''22k'']) (ex_prop ''Value'' ''47k'')
     = ex_instance [ex_prop ''Value'' ''47k'', ex_prop ''Reference'' ''R1'', ex_prop ''Value'' ''47k'']
   \<and> with_property (ex_instance [ex_prop ''Reference'' ''R1'']) (ex_prop ''Value'' ''47k'')
     = ex_instance [ex_prop ''Reference'' ''R1'', ex_prop ''Value'' ''47k'']"
  using
    with_property_frame [of "ex_instance [ex_prop ''Value'' ''10k'', ex_prop ''Reference'' ''R1'',
                               ex_prop ''Value'' ''22k'']" "ex_prop ''Value'' ''47k''"]
    with_property_frame [of "ex_instance [ex_prop ''Reference'' ''R1'']" "ex_prop ''Value'' ''47k''"]
  by (simp add: ex_instance_def ex_prop_def)

subsection \<open>The empty list\<close>

lemma tokenize_empty_list:
  "tokenize ''()'' = Inr [Token LPAREN ''('' 1 1, Token RPAREN '')'' 1 2]"
  by (simp add: tokenize_def tokenize_loop.simps is_space_def advance_def)

text \<open>
  Claim C3, as the code has it. Parsing the text "()" succeeds with the empty list.
  \<open>_write_expr\<close> appends exactly "()" to its output for the empty list, whatever the
  writer and the depth; \<open>write\<close>, and so \<open>write_sexpr\<close>, ends every text it returns
  with a newline, so that the text written for the empty list is "()" and a newline.
\<close>

theorem empty_list_parse_write:
  "parse_sexpr ''()'' = Inr (SList [])
   \<and> write_expr w (SList []) output depth = output @ ''()''
   \<and> write_sexpr (SList []) = ''()'' @ [ch_newline]"
  by (simp add: parse_sexpr_def parse_def tokenize_empty_list write_sexpr_def
        SExprWriter_write_def)

text \<open>The text that \<open>write_sexpr\<close> returns for the empty list is not the two characters "()".\<close>

theorem empty_list_write_counterexample: "write_sexpr (SList []) \<noteq> ''()''"
  by (simp add: write_sexpr_def SExprWriter_write_def)

subsection \<open>Positions of tokens and errors\<close>

lemma advance_pos: "advance ch l c = (l', c') \<Longrightarrow> 1 \<le> l \<Longrightarrow> 1 \<le> c \<Longrightarrow> 1 \<le> l' \<and> 1 \<le> c'"
  by (auto simp: advance_def split: if_splits)

lemma skip_comment_pos:
  "skip_comment cs l c = (cs', l', c') \<Longrightarrow> 1 \<le> l \<Longrightarrow> 1 \<le> c \<Longrightarrow> 1 \<le> l' \<and> 1 \<le> c'"
proof (induction cs l c rule: skip_comment.induct)
  case (1 l c)
  then show ?case by simp
next
  case (2 ch cs l c)
  then show ?case
    by (cases "advance ch l c") (auto split: if_splits dest: advance_pos)
qed

lemma skip_whitespace_pos:
  "skip_whitespace cs l c = (cs', l', c') \<Longrightarrow> 1 \<le> l \<Longrightarrow> 1 \<le> c \<Longrightarrow> 1 \<le> l' \<and> 1 \<le> c'"
proof (induction cs l c rule: skip_whitespace.induct)
  case (1 l c)
  then show ?case by simp
next
  case (2 ch cs l c)
  show ?case
  proof (cases "is_space ch")
    case True
    obtain l1 c1 where a: "advance ch l c = (l1, c1)" by (cases "advance ch l c") auto
    from advance_pos[OF a] 2 have "1 \<le> l1 \<and> 1 \<le> c1" by simp
    with 2(1)[OF True a[symmetric]] 2(3) True a show ?thesis by simp
  next
    case False
    show ?thesis
    proof (cases "ch = CHR '';''")
      case True
      obtain cs1 l1 c1 where sc: "skip_comment (ch # cs) l c = (cs1, l1, c1)"
        by (cases "skip_comment (ch # cs) l c") auto
      from skip_comment_pos[OF sc] 2 have "1 \<le> l1 \<and> 1 \<le> c1" by simp
      with 2(2)[OF False True sc[symmetric] refl] 2(3) False True sc show ?thesis by simp
    next
      case F2: False
      with False 2 show ?thesis by simp
    qed
  qed
qed

abbreviation tok_pos_ok :: "token \<Rightarrow> bool" where
  "tok_pos_ok t \<equiv> 1 \<le> tok_line t \<and> 1 \<le> tok_column t"

lemma read_string_pos:
  "1 \<le> l \<Longrightarrow> 1 \<le> c \<Longrightarrow>
   (read_string_loop cs l c chars = Some (s, cs', l', c') \<longrightarrow> 1 \<le> l' \<and> 1 \<le> c')"
proof (induction cs l c chars rule: read_string_loop.induct)
  case (1 l c chars)
  then show ?case by simp
next
  case (2 ch l c chars)
  then show ?case by (auto simp: advance_def split: if_splits)
next
  case (3 ch e cs l c chars)
  obtain l1 c1 where a1: "advance ch l c = (l1, c1)" by (cases "advance ch l c") auto
  obtain l2 c2 where a2: "advance e l1 c1 = (l2, c2)" by (cases "advance e l1 c1") auto
  from advance_pos[OF a1] 3 have p1: "1 \<le> l1" "1 \<le> c1" by simp_all
  from advance_pos[OF a2] p1 have p2: "1 \<le> l2" "1 \<le> c2" by simp_all
  show ?case
  proof (cases "ch = ch_quote")
    case True
    with a1 p1 show ?thesis by auto
  next
    case False
    show ?thesis
    proof (cases "ch = ch_backslash")
      case True
      with False a1 a2 p2 3(1)[OF False True a1[symmetric] a2[symmetric]]
      show ?thesis by simp
    next
      case F2: False
      with False a1 p1 3(2)[OF False F2 a1[symmetric]] show ?thesis by simp
    qed
  qed
qed

lemma read_atom_pos:
  "1 \<le> l \<Longrightarrow> 1 \<le> c \<Longrightarrow>
   (read_atom_loop cs l c chars = (s, cs', l', c') \<longrightarrow> 1 \<le> l' \<and> 1 \<le> c')"
proof (induction cs l c chars rule: read_atom_loop.induct)
  case (1 l c chars)
  then show ?case by simp
next
  case (2 ch cs l c chars)
  obtain l1 c1 where a1: "advance ch l c = (l1, c1)" by (cases "advance ch l c") auto
  from advance_pos[OF a1] 2 have p1: "1 \<le> l1" "1 \<le> c1" by simp_all
  show ?case
  proof (cases "is_delim ch")
    case True
    with 2 show ?thesis by auto
  next
    case False
    with a1 p1 2(1)[OF False a1[symmetric]] show ?thesis by simp
  qed
qed

subsection \<open>One round of the tokenizer's main loop\<close>

lemma tokenize_loop_Nil: "tokenize_loop [] l c tokens = Inr tokens"
  by (simp add: tokenize_loop.simps)

lemma skip_whitespace_Nil_iff: "skip_whitespace [] l c = (cs1, l1, c1) \<longleftrightarrow> cs1 = [] \<and> l1 = l \<and> c1 = c"
  by auto

lemma tokenize_loop_end:
  "skip_whitespace cs l c = ([], l1, c1) \<Longrightarrow> tokenize_loop cs l c tokens = Inr tokens"
  by (simp add: tokenize_loop.simps[of cs])

lemma tokenize_loop_lparen:
  "skip_whitespace cs l c = (CHR ''('' # cs2, l1, c1) \<Longrightarrow>
   tokenize_loop cs l c tokens = tokenize_loop cs2 l1 (c1 + 1) (tokens @ [Token LPAREN ''('' l1 c1])"
  by (cases "cs = []") (auto simp: tokenize_loop.simps[of cs] advance_def)

lemma tokenize_loop_rparen:
  "skip_whitespace cs l c = (CHR '')'' # cs2, l1, c1) \<Longrightarrow>
   tokenize_loop cs l c tokens = tokenize_loop cs2 l1 (c1 + 1) (tokens @ [Token RPAREN '')'' l1 c1])"
  by (cases "cs = []") (auto simp: tokenize_loop.simps[of cs] advance_def)

lemma tokenize_loop_quote:
  "skip_whitespace cs l c = (ch_quote # cs2, l1, c1) \<Longrightarrow>
   tokenize_loop cs l c tokens =
     (case read_string (ch_quote # cs2) l1 c1 of
        Inl err \<Rightarrow> Inl err
      | Inr (tok, cs3, l3, c3) \<Rightarrow> tokenize_loop cs3 l3 c3 (tokens @ [tok]))"
  by (cases "cs = []") (auto simp: tokenize_loop.simps[of cs])

lemma tokenize_loop_atom:
  "skip_whitespace cs l c = (ch # cs2, l1, c1) \<Longrightarrow>
   ch \<noteq> CHR ''('' \<Longrightarrow> ch \<noteq> CHR '')'' \<Longrightarrow> ch \<noteq> ch_quote \<Longrightarrow>
   tokenize_loop cs l c tokens =
     (case read_atom (ch # cs2) l1 c1 of
        (tok, cs3, l3, c3) \<Rightarrow> tokenize_loop cs3 l3 c3 (tokens @ [tok]))"
  by (cases "cs = []") (auto simp: tokenize_loop.simps[of cs])

lemma read_string_result_pos:
  assumes "read_string (ch # cs) l c = Inr (tok, cs', l', c')" "1 \<le> l" "1 \<le> c"
  shows "tok_pos_ok tok \<and> 1 \<le> l' \<and> 1 \<le> c'"
proof -
  obtain l1 c1 where a: "advance ch l c = (l1, c1)" by (cases "advance ch l c") auto
  from advance_pos[OF a] assms have p1: "1 \<le> l1" "1 \<le> c1" by simp_all
  from assms(1) a obtain chars where
    rs: "read_string_loop cs l1 c1 [] = Some (chars, cs', l', c')" and tok: "tok = Token STRING chars l c"
    by (auto simp: read_string_def split: option.splits)
  from read_string_pos[OF p1, of cs "[]" chars cs' l' c'] rs tok assms(2,3) show ?thesis by simp
qed

lemma read_string_error:
  "read_string cs l c = Inl err \<Longrightarrow> err = ParseError ''Unterminated string'' l c"
  by (auto simp: read_string_def split: prod.splits option.splits)

lemma read_atom_result_pos:
  assumes "read_atom cs l c = (tok, cs', l', c')" "1 \<le> l" "1 \<le> c"
  shows "tok_pos_ok tok \<and> 1 \<le> l' \<and> 1 \<le> c'"
proof -
  from assms(1) obtain chars where
    ra: "read_atom_loop cs l c [] = (chars, cs', l', c')" and tok: "tok = Token ATOM chars l c"
    by (auto simp: read_atom_def split: prod.splits)
  from read_atom_pos[OF assms(2,3), of cs "[]" chars cs' l' c'] ra tok assms(2,3) show ?thesis by simp
qed

lemma tokenize_loop_pos:
  "1 \<le> l \<Longrightarrow> 1 \<le> c \<Longrightarrow> list_all tok_pos_ok tokens \<Longrightarrow>
   (case tokenize_loop cs l c tokens of
      Inl e \<Rightarrow> 1 \<le> line e \<and> 1 \<le> column e
    | Inr ts \<Rightarrow> list_all tok_pos_ok ts)"
proof (induction "length cs" arbitrary: cs l c tokens rule: less_induct)
  case less
  obtain cs1 l1 c1 where sk: "skip_whitespace cs l c = (cs1, l1, c1)"
    by (cases "skip_whitespace cs l c") auto
  from skip_whitespace_pos[OF sk] less.prems have p1: "1 \<le> l1" "1 \<le> c1" by simp_all
  from skip_whitespace_shorter[OF sk] have le: "length cs1 \<le> length cs" .
  show ?case
  proof (cases cs1)
    case Nil
    with sk less.prems show ?thesis by (simp add: tokenize_loop_end)
  next
    case (Cons ch cs2)
    note sk' = sk[unfolded Cons]
    from le Cons have lt: "length cs2 < length cs" by simp
    consider (lp) "ch = CHR ''(''" | (rp) "ch = CHR '')''" | (q) "ch = ch_quote"
      | (a) "ch \<noteq> CHR ''(''" "ch \<noteq> CHR '')''" "ch \<noteq> ch_quote" by blast
    then show ?thesis
    proof cases
      case lp
      have "list_all tok_pos_ok (tokens @ [Token LPAREN ''('' l1 c1])"
        using less.prems(3) p1 by simp
      from less.hyps[OF lt p1(1) _ this, of "c1 + 1"] sk' lp show ?thesis
        by (simp add: tokenize_loop_lparen)
    next
      case rp
      have "list_all tok_pos_ok (tokens @ [Token RPAREN '')'' l1 c1])"
        using less.prems(3) p1 by simp
      from less.hyps[OF lt p1(1) _ this, of "c1 + 1"] sk' rp show ?thesis
        by (simp add: tokenize_loop_rparen)
    next
      case q
      note sk'' = sk'[unfolded q]
      show ?thesis
      proof (cases "read_string (ch_quote # cs2) l1 c1")
        case (Inl err)
        with read_string_error[OF Inl] p1 show ?thesis
          by (simp add: tokenize_loop_quote[OF sk''])
      next
        case (Inr r)
        obtain tok cs3 l3 c3 where r: "r = (tok, cs3, l3, c3)" by (cases r) auto
        from Inr r have rs: "read_string (ch_quote # cs2) l1 c1 = Inr (tok, cs3, l3, c3)" by simp
        from read_string_result_pos[OF rs p1] have p3: "tok_pos_ok tok" "1 \<le> l3" "1 \<le> c3"
          by simp_all
        from read_string_shorter[OF rs] lt have lt3: "length cs3 < length cs" by simp
        have "list_all tok_pos_ok (tokens @ [tok])" using less.prems(3) p3 by simp
        from less.hyps[OF lt3 p3(2,3) this] rs show ?thesis
          by (simp add: tokenize_loop_quote[OF sk''])
      qed
    next
      case a
      obtain tok cs3 l3 c3 where ra: "read_atom (ch # cs2) l1 c1 = (tok, cs3, l3, c3)"
        by (cases "read_atom (ch # cs2) l1 c1") auto
      from read_atom_result_pos[OF ra p1] have p3: "tok_pos_ok tok" "1 \<le> l3" "1 \<le> c3"
        by simp_all
      from skip_whitespace_head[OF sk'] a have nd: "\<not> is_delim ch" by (simp add: is_delim_def)
      from read_atom_shorter[OF nd ra] lt have lt3: "length cs3 < length cs" by simp
      have "list_all tok_pos_ok (tokens @ [tok])" using less.prems(3) p3 by simp
      from less.hyps[OF lt3 p3(2,3) this] ra show ?thesis
        by (simp add: tokenize_loop_atom[OF sk' a])
    qed
  qed
qed

subsection \<open>Errors of the parser\<close>

lemma parse_rest_subset:
  "(parse_expr ts = Inr (x, rest) \<longrightarrow> set rest \<subseteq> set ts)"
  "(parse_list st items ts = Inr (xs, rest) \<longrightarrow> set rest \<subseteq> set ts)"
proof (induction ts and st items ts arbitrary: x rest and xs rest rule: parse_expr_parse_list.induct)
  case 1
  show ?case by simp
next
  case (2 t ts)
  then show ?case by (auto split: if_splits sum.splits prod.splits)
next
  case (3 st items)
  show ?case by simp
next
  case (4 st items t ts)
  show ?case
  proof (cases "tok_type t = RPAREN")
    case True
    then show ?thesis by auto
  next
    case False
    show ?thesis
    proof (cases "parse_expr (t # ts)")
      case (Inl e)
      with False show ?thesis by simp
    next
      case (Inr r)
      obtain y rest1 where r: "r = (y, rest1)" by (cases r) auto
      from "4.IH"(1)[OF False, of y rest1] Inr r have s1: "set rest1 \<subseteq> set (t # ts)" by simp
      from "4.IH"(2)[OF False Inr r[symmetric], of xs rest]
      have "parse_list st (items @ [y]) rest1 = Inr (xs, rest) \<longrightarrow> set rest \<subseteq> set rest1" by simp
      with s1 False Inr r show ?thesis by auto
    qed
  qed
qed

lemma parse_error_pos:
  "list_all tok_pos_ok ts \<Longrightarrow> ts \<noteq> [] \<Longrightarrow> parse_expr ts = Inl e \<Longrightarrow> 1 \<le> line e \<and> 1 \<le> column e"
  "list_all tok_pos_ok ts \<Longrightarrow> tok_pos_ok st \<Longrightarrow> parse_list st items ts = Inl e \<Longrightarrow>
     1 \<le> line e \<and> 1 \<le> column e"
proof (induction ts and st items ts arbitrary: e and e rule: parse_expr_parse_list.induct)
  case 1
  then show ?case by simp
next
  case (2 t ts)
  then show ?case by (auto split: if_splits sum.splits prod.splits)
next
  case (3 st items)
  then show ?case by auto
next
  case (4 st items t ts)
  show ?case
  proof (cases "tok_type t = RPAREN")
    case True
    with 4 show ?thesis by auto
  next
    case False
    show ?thesis
    proof (cases "parse_expr (t # ts)")
      case (Inl e')
      with False "4.prems" "4.IH"(1)[OF False, of e'] show ?thesis by simp
    next
      case (Inr r)
      obtain y rest1 where r: "r = (y, rest1)" by (cases r) auto
      from parse_rest_subset(1)[of "t # ts" y rest1] Inr r "4.prems"(1)
      have "list_all tok_pos_ok rest1" by (auto simp: list_all_iff)
      with "4.IH"(2)[OF False Inr r[symmetric], of e] "4.prems" False Inr r
      show ?thesis by simp
    qed
  qed
qed

lemma tokenize_pos:
  "tokenize text = Inr ts \<Longrightarrow> list_all tok_pos_ok ts"
  "tokenize text = Inl e \<Longrightarrow> 1 \<le> line e \<and> 1 \<le> column e"
  using tokenize_loop_pos[of 1 1 "[]" "text"] by (simp_all add: tokenize_def)

text \<open>
  Claim C8. A text whose token stream is empty (the empty text, or one of whitespace and
  comments only) is refused with the message "Unexpected end of input" at line 0 and
  column 0. No other error of \<open>parse_sexpr\<close> has a zero there: every other error carries
  a line and a column that are at least 1.
\<close>

theorem parse_empty_input:
  "(tokenize text = Inr [] \<longrightarrow> parse_sexpr text = Inl (ParseError ''Unexpected end of input'' 0 0))
   \<and> parse_sexpr [] = Inl (ParseError ''Unexpected end of input'' 0 0)
   \<and> (parse_sexpr text = Inl e \<and> (line e = 0 \<or> column e = 0) \<longrightarrow>
        tokenize text = Inr [] \<and> e = ParseError ''Unexpected end of input'' 0 0)"
proof (intro conjI impI)
  show "parse_sexpr text = Inl (ParseError ''Unexpected end of input'' 0 0)"
    if "tokenize text = Inr []"
    using that by (simp add: parse_sexpr_def parse_def)
  show "parse_sexpr [] = Inl (ParseError ''Unexpected end of input'' 0 0)"
    by (simp add: parse_sexpr_def parse_def tokenize_def tokenize_loop_Nil)
  assume a: "parse_sexpr text = Inl e \<and> (line e = 0 \<or> column e = 0)"
  then have z: "\<not> (1 \<le> line e \<and> 1 \<le> column e)" by auto
  have "tokenize text = Inr [] \<and> e = ParseError ''Unexpected end of input'' 0 0"
  proof (cases "tokenize text")
    case (Inl e')
    with a tokenize_pos(2)[OF Inl] z show ?thesis by (simp add: parse_sexpr_def)
  next
    case (Inr ts)
    note ok = tokenize_pos(1)[OF Inr]
    show ?thesis
    proof (cases ts)
      case Nil
      with Inr a show ?thesis by (auto simp: parse_sexpr_def parse_def)
    next
      case (Cons t ts')
      show ?thesis
      proof (cases "parse_expr ts")
        case (Inl e')
        with a Inr have "e' = e" by (simp add: parse_sexpr_def parse_def)
        with parse_error_pos(1)[OF ok _ Inl] Cons z show ?thesis by simp
      next
        case r: (Inr r)
        obtain x rest where rr: "r = (x, rest)" by (cases r) auto
        from parse_rest_subset(1)[of ts x rest] r rr ok
        have "list_all tok_pos_ok rest" by (auto simp: list_all_iff)
        with a Inr r rr z show ?thesis
          by (cases rest) (auto simp: parse_sexpr_def parse_def)
      qed
    qed
  qed
  then show "tokenize text = Inr []" and "e = ParseError ''Unexpected end of input'' 0 0"
    by simp_all
qed

lemma tokenize_comment_only: "tokenize '' ;c'' = Inr []"
  by (simp add: tokenize_def tokenize_loop.simps is_space_def advance_def)

theorem parse_empty_input_witness:
  "tokenize '' ;c'' = Inr []
   \<and> parse_sexpr '' ;c'' = Inl (ParseError ''Unexpected end of input'' 0 0)
   \<and> line (ParseError ''Unexpected end of input'' 0 0) = 0"
  using parse_empty_input [of "'' ;c''" "ParseError ''Unexpected end of input'' 0 0"]
    tokenize_comment_only
  by simp

subsection \<open>Where the tokenizer stands in the text\<close>

lemma advance_over_append: "advance_over (a @ b) p = advance_over b (advance_over a p)"
  by (induction a arbitrary: p) auto

lemma skip_comment_prefix:
  "skip_comment cs l c = (cs', l', c') \<Longrightarrow> \<exists>ws. cs = ws @ cs' \<and> (l', c') = advance_over ws (l, c)"
proof (induction cs l c rule: skip_comment.induct)
  case (1 l c)
  then show ?case by simp
next
  case (2 ch cs l c)
  show ?case
  proof (cases "ch = ch_newline")
    case True
    with 2 have "ch # cs = [] @ cs' \<and> (l', c') = advance_over [] (l, c)" by simp
    then show ?thesis by blast
  next
    case False
    obtain l1 c1 where a: "advance ch l c = (l1, c1)" by (cases "advance ch l c") auto
    from 2(1)[OF False a[symmetric]] 2(2) False a
    obtain ws where "cs = ws @ cs' \<and> (l', c') = advance_over ws (l1, c1)" by auto
    with a have "ch # cs = (ch # ws) @ cs' \<and> (l', c') = advance_over (ch # ws) (l, c)" by simp
    then show ?thesis by blast
  qed
qed

lemma skip_whitespace_prefix:
  "skip_whitespace cs l c = (cs', l', c') \<Longrightarrow> \<exists>ws. cs = ws @ cs' \<and> (l', c') = advance_over ws (l, c)"
proof (induction cs l c rule: skip_whitespace.induct)
  case (1 l c)
  then show ?case by simp
next
  case (2 ch cs l c)
  show ?case
  proof (cases "is_space ch")
    case True
    obtain l1 c1 where a: "advance ch l c = (l1, c1)" by (cases "advance ch l c") auto
    from 2(1)[OF True a[symmetric]] 2(3) True a
    obtain ws where "cs = ws @ cs' \<and> (l', c') = advance_over ws (l1, c1)" by auto
    with a have "ch # cs = (ch # ws) @ cs' \<and> (l', c') = advance_over (ch # ws) (l, c)" by simp
    then show ?thesis by blast
  next
    case False
    show ?thesis
    proof (cases "ch = CHR '';''")
      case True
      obtain cs1 l1 c1 where sc: "skip_comment (ch # cs) l c = (cs1, l1, c1)"
        by (cases "skip_comment (ch # cs) l c") auto
      from skip_comment_prefix[OF sc]
      obtain w1 where w1: "ch # cs = w1 @ cs1" "(l1, c1) = advance_over w1 (l, c)" by blast
      from 2(2)[OF False True sc[symmetric] refl] 2(3) False True sc
      obtain w2 where w2: "cs1 = w2 @ cs'" "(l', c') = advance_over w2 (l1, c1)" by auto
      from w1 w2 have "ch # cs = (w1 @ w2) @ cs' \<and> (l', c') = advance_over (w1 @ w2) (l, c)"
        by (simp add: advance_over_append)
      then show ?thesis by blast
    next
      case F2: False
      with False 2 have "ch # cs = [] @ cs' \<and> (l', c') = advance_over [] (l, c)" by simp
      then show ?thesis by blast
    qed
  qed
qed

lemma read_string_loop_prefix:
  "read_string_loop cs l c chars = Some (s, cs', l', c') \<Longrightarrow>
   \<exists>ws. cs = ws @ cs' \<and> (l', c') = advance_over ws (l, c)"
proof (induction cs l c chars rule: read_string_loop.induct)
  case (1 l c chars)
  then show ?case by simp
next
  case (2 ch l c chars)
  then have "[ch] = [ch] @ cs' \<and> (l', c') = advance_over [ch] (l, c)"
    by (auto split: if_splits prod.splits)
  then show ?case by blast
next
  case (3 ch e cs l c chars)
  obtain l1 c1 where a1: "advance ch l c = (l1, c1)" by (cases "advance ch l c") auto
  obtain l2 c2 where a2: "advance e l1 c1 = (l2, c2)" by (cases "advance e l1 c1") auto
  show ?case
  proof (cases "ch = ch_quote")
    case True
    with 3(3) a1 have "ch # e # cs = [ch] @ cs' \<and> (l', c') = advance_over [ch] (l, c)" by auto
    then show ?thesis by blast
  next
    case False
    show ?thesis
    proof (cases "ch = ch_backslash")
      case True
      from 3(1)[OF False True a1[symmetric] a2[symmetric]] 3(3) False True a1 a2
      obtain ws where "cs = ws @ cs' \<and> (l', c') = advance_over ws (l2, c2)" by auto
      with a1 a2 have "ch # e # cs = (ch # e # ws) @ cs' \<and> (l', c') = advance_over (ch # e # ws) (l, c)"
        by simp
      then show ?thesis by blast
    next
      case F2: False
      from 3(2)[OF False F2 a1[symmetric]] 3(3) False F2 a1
      obtain ws where "e # cs = ws @ cs' \<and> (l', c') = advance_over ws (l1, c1)" by auto
      with a1 have "ch # e # cs = (ch # ws) @ cs' \<and> (l', c') = advance_over (ch # ws) (l, c)"
        by simp
      then show ?thesis by blast
    qed
  qed
qed

lemma read_atom_loop_prefix:
  "read_atom_loop cs l c chars = (s, cs', l', c') \<Longrightarrow>
   \<exists>ws. cs = ws @ cs' \<and> (l', c') = advance_over ws (l, c)"
proof (induction cs l c chars rule: read_atom_loop.induct)
  case (1 l c chars)
  then show ?case by simp
next
  case (2 ch cs l c chars)
  show ?case
  proof (cases "is_delim ch")
    case True
    with 2 have "ch # cs = [] @ cs' \<and> (l', c') = advance_over [] (l, c)" by simp
    then show ?thesis by blast
  next
    case False
    obtain l1 c1 where a: "advance ch l c = (l1, c1)" by (cases "advance ch l c") auto
    from 2(1)[OF False a[symmetric]] 2(2) False a
    obtain ws where "cs = ws @ cs' \<and> (l', c') = advance_over ws (l1, c1)" by auto
    with a have "ch # cs = (ch # ws) @ cs' \<and> (l', c') = advance_over (ch # ws) (l, c)" by simp
    then show ?thesis by blast
  qed
qed

lemma read_string_prefix:
  assumes "read_string (ch # cs) l c = Inr (tok, cs', l', c')"
  shows "\<exists>ws. ch # cs = ws @ cs' \<and> (l', c') = advance_over ws (l, c)"
proof -
  obtain l1 c1 where a: "advance ch l c = (l1, c1)" by (cases "advance ch l c") auto
  from assms a obtain chars where "read_string_loop cs l1 c1 [] = Some (chars, cs', l', c')"
    by (auto simp: read_string_def split: option.splits)
  from read_string_loop_prefix[OF this]
  obtain ws where "cs = ws @ cs' \<and> (l', c') = advance_over ws (l1, c1)" by blast
  with a have "ch # cs = (ch # ws) @ cs' \<and> (l', c') = advance_over (ch # ws) (l, c)" by simp
  then show ?thesis by blast
qed

lemma read_atom_prefix:
  assumes "read_atom cs l c = (tok, cs', l', c')"
  shows "\<exists>ws. cs = ws @ cs' \<and> (l', c') = advance_over ws (l, c)"
proof -
  from assms obtain chars where "read_atom_loop cs l c [] = (chars, cs', l', c')"
    by (auto simp: read_atom_def split: prod.splits)
  from read_atom_loop_prefix[OF this] show ?thesis .
qed

lemma at_round_prefix:
  "at_round src st \<Longrightarrow> \<exists>pre. src = pre @ fst st \<and> snd st = position_after pre"
proof (induction rule: at_round.induct)
  case start
  have "src = [] @ src \<and> (1, 1) = position_after []" by (simp add: position_after_def)
  then show ?case by simp
next
  case (lparen cs l c cs2 l1 c1)
  then obtain pre where pre: "src = pre @ cs" "(l, c) = position_after pre" by auto
  from skip_whitespace_prefix[OF lparen(2)]
  obtain ws where ws: "cs = ws @ CHR ''('' # cs2" "(l1, c1) = advance_over ws (l, c)" by blast
  have "advance_over (ws @ ''('') (l, c) = (l1, c1 + 1)"
    using ws(2)[symmetric] by (simp add: advance_over_append advance_def)
  with pre ws have "src = (pre @ ws @ ''('') @ cs2 \<and> (l1, c1 + 1) = position_after (pre @ ws @ ''('')"
    by (simp add: position_after_def advance_over_append)
  then show ?case by (metis fst_conv snd_conv)
next
  case (rparen cs l c cs2 l1 c1)
  then obtain pre where pre: "src = pre @ cs" "(l, c) = position_after pre" by auto
  from skip_whitespace_prefix[OF rparen(2)]
  obtain ws where ws: "cs = ws @ CHR '')'' # cs2" "(l1, c1) = advance_over ws (l, c)" by blast
  have "advance_over (ws @ '')'') (l, c) = (l1, c1 + 1)"
    using ws(2)[symmetric] by (simp add: advance_over_append advance_def)
  with pre ws have "src = (pre @ ws @ '')'') @ cs2 \<and> (l1, c1 + 1) = position_after (pre @ ws @ '')'')"
    by (simp add: position_after_def advance_over_append)
  then show ?case by (metis fst_conv snd_conv)
next
  case (quoted cs l c cs2 l1 c1 tok cs3 l3 c3)
  then obtain pre where pre: "src = pre @ cs" "(l, c) = position_after pre" by auto
  from skip_whitespace_prefix[OF quoted(2)]
  obtain ws where ws: "cs = ws @ ch_quote # cs2" "(l1, c1) = advance_over ws (l, c)" by blast
  from read_string_prefix[OF quoted(3)]
  obtain w2 where w2: "ch_quote # cs2 = w2 @ cs3" "(l3, c3) = advance_over w2 (l1, c1)" by blast
  from pre ws w2 have "src = (pre @ ws @ w2) @ cs3 \<and> (l3, c3) = position_after (pre @ ws @ w2)"
    by (simp add: position_after_def advance_over_append)
  then show ?case by (metis fst_conv snd_conv)
next
  case (atom cs l c ch cs2 l1 c1 tok cs3 l3 c3)
  then obtain pre where pre: "src = pre @ cs" "(l, c) = position_after pre" by auto
  from skip_whitespace_prefix[OF atom(2)]
  obtain ws where ws: "cs = ws @ ch # cs2" "(l1, c1) = advance_over ws (l, c)" by blast
  from read_atom_prefix[OF atom(6)]
  obtain w2 where w2: "ch # cs2 = w2 @ cs3" "(l3, c3) = advance_over w2 (l1, c1)" by blast
  from pre ws w2 have "src = (pre @ ws @ w2) @ cs3 \<and> (l3, c3) = position_after (pre @ ws @ w2)"
    by (simp add: position_after_def advance_over_append)
  then show ?case by (metis fst_conv snd_conv)
qed

lemma at_round_tokenize:
  "at_round src st \<Longrightarrow> \<exists>toks. tokenize src = tokenize_loop (fst st) (fst (snd st)) (snd (snd st)) toks"
proof (induction rule: at_round.induct)
  case start
  show ?case by (auto simp: tokenize_def)
next
  case (lparen cs l c cs2 l1 c1)
  then show ?case by (auto simp: tokenize_loop_lparen)
next
  case (rparen cs l c cs2 l1 c1)
  then show ?case by (auto simp: tokenize_loop_rparen)
next
  case (quoted cs l c cs2 l1 c1 tok cs3 l3 c3)
  then show ?case by (auto simp: tokenize_loop_quote)
next
  case (atom cs l c ch cs2 l1 c1 tok cs3 l3 c3)
  then show ?case by (auto simp: tokenize_loop_atom)
qed

lemma read_string_loop_None_iff:
  "read_string_loop cs l c chars = None \<longleftrightarrow> \<not> has_closing_quote cs"
  by (induction cs l c chars rule: read_string_loop.induct) (auto split: prod.splits)

lemma advance_over_snoc: "advance_over (s @ [ch]) p = advance ch (fst (advance_over s p)) (snd (advance_over s p))"
  by (simp add: advance_over_append)

lemma position_after_line_column: "position_after pre = (line_of pre, column_of pre)"
proof (induction pre rule: rev_induct)
  case Nil
  show ?case by (simp add: position_after_def line_of_def column_of_def)
next
  case (snoc ch pre)
  have "position_after (pre @ [ch]) = advance ch (fst (position_after pre)) (snd (position_after pre))"
    unfolding position_after_def by (rule advance_over_snoc)
  also have "\<dots> = advance ch (line_of pre) (column_of pre)" by (simp add: snoc.IH)
  also have "\<dots> = (line_of (pre @ [ch]), column_of (pre @ [ch]))"
    by (simp add: advance_def line_of_def column_of_def)
  finally show ?case .
qed

text \<open>
  Claim C5. Whenever the main loop of the tokenizer, run on a text, comes to a quote
  (after skipping whitespace and comments) and no closing quote follows before the end
  of the text, \<open>tokenize\<close> fails with the message "Unterminated string", and the line
  and column of the error are those of that opening quote, counted on the text: the
  line is one more than the number of newlines before the quote, the column one more
  than the number of characters between the last newline before the quote (or the
  start of the text) and the quote.
\<close>

theorem unterminated_string_error:
  assumes "at_round src (cs, l, c)"
    and "skip_whitespace cs l c = (ch_quote # body, l1, c1)"
    and "\<not> has_closing_quote body"
  shows "\<exists>pre. src = pre @ ch_quote # body
           \<and> tokenize src = Inl (ParseError ''Unterminated string'' (line_of pre) (column_of pre))"
proof -
  from at_round_tokenize[OF assms(1)] obtain toks where
    t: "tokenize src = tokenize_loop cs l c toks" by auto
  obtain l2 c2 where a: "advance ch_quote l1 c1 = (l2, c2)" by (cases "advance ch_quote l1 c1") auto
  from assms(3) have "read_string_loop body l2 c2 [] = None"
    by (simp add: read_string_loop_None_iff)
  with a have "read_string (ch_quote # body) l1 c1 = Inl (ParseError ''Unterminated string'' l1 c1)"
    by (simp add: read_string_def)
  with t have 1: "tokenize src = Inl (ParseError ''Unterminated string'' l1 c1)"
    by (simp add: tokenize_loop_quote[OF assms(2)])
  from at_round_prefix[OF assms(1)] obtain pre where
    pre: "src = pre @ cs" "(l, c) = position_after pre" by auto
  from skip_whitespace_prefix[OF assms(2)] obtain ws where
    ws: "cs = ws @ ch_quote # body" "(l1, c1) = advance_over ws (l, c)" by blast
  from pre ws have 2: "src = (pre @ ws) @ ch_quote # body" and "position_after (pre @ ws) = (l1, c1)"
    by (simp_all add: position_after_def advance_over_append)
  then have "l1 = line_of (pre @ ws)" "c1 = column_of (pre @ ws)"
    by (simp_all add: position_after_line_column)
  with 1 2 show ?thesis by blast
qed

lemma at_round_example:
  "at_round (''(foo'' @ [ch_newline, ch_tab, ch_quote] @ ''bar'') ([ch_newline, ch_tab, ch_quote] @ ''bar'', 1, 5)"
proof -
  let ?src = "''(foo'' @ [ch_newline, ch_tab, ch_quote] @ ''bar''"
  have sk1: "skip_whitespace ?src 1 1 = (CHR ''('' # ''foo'' @ [ch_newline, ch_tab, ch_quote] @ ''bar'', 1, 1)"
    by (simp add: is_space_def)
  have 1: "at_round ?src (''foo'' @ [ch_newline, ch_tab, ch_quote] @ ''bar'', 1, 1 + 1)"
    by (rule at_round.lparen[OF at_round.start sk1])
  have sk2: "skip_whitespace (''foo'' @ [ch_newline, ch_tab, ch_quote] @ ''bar'') 1 (1 + 1)
               = (CHR ''f'' # ''oo'' @ [ch_newline, ch_tab, ch_quote] @ ''bar'', 1, 2)"
    by (simp add: is_space_def)
  have ra: "read_atom (CHR ''f'' # ''oo'' @ [ch_newline, ch_tab, ch_quote] @ ''bar'') 1 2
              = (Token ATOM ''foo'' 1 2, [ch_newline, ch_tab, ch_quote] @ ''bar'', 1, 5)"
    by (simp add: read_atom_def is_delim_def is_space_def advance_def)
  show ?thesis
    by (rule at_round.atom[OF 1 sk2 _ _ _ ra]) simp_all
qed

theorem unterminated_string_error_witness:
  "tokenize (''(foo'' @ [ch_newline, ch_tab, ch_quote] @ ''bar'')
     = Inl (ParseError ''Unterminated string'' 2 2)"
proof -
  have sk: "skip_whitespace ([ch_newline, ch_tab, ch_quote] @ ''bar'') 1 5 = (ch_quote # ''bar'', 2, 2)"
    by (simp add: is_space_def advance_def)
  have nc: "\<not> has_closing_quote ''bar''" by simp
  from unterminated_string_error [OF at_round_example sk nc]
  obtain pre where p: "''(foo'' @ [ch_newline, ch_tab, ch_quote] @ ''bar'' = pre @ ch_quote # ''bar''"
    and t: "tokenize (''(foo'' @ [ch_newline, ch_tab, ch_quote] @ ''bar'')
              = Inl (ParseError ''Unterminated string'' (line_of pre) (column_of pre))" by blast
  from p have "pre = ''(foo'' @ [ch_newline, ch_tab]"
    by (simp add: append_eq_append_conv)
  with t show ?thesis by (simp add: line_of_def column_of_def)
qed

subsection \<open>Quoted atoms are read back\<close>

lemma skip_whitespace_stop:
  "\<not> is_space ch \<Longrightarrow> ch \<noteq> CHR '';'' \<Longrightarrow> skip_whitespace (ch # cs) l c = (ch # cs, l, c)"
  by simp

lemma read_string_loop_plain:
  "ch \<noteq> ch_quote \<Longrightarrow> ch \<noteq> ch_backslash \<Longrightarrow>
   read_string_loop (ch # cs) l c chars =
     read_string_loop cs (fst (advance ch l c)) (snd (advance ch l c)) (chars @ [ch])"
  by (cases cs) (auto split: prod.splits)

lemma read_string_loop_escape:
  "read_string_loop (ch_backslash # e # cs) l c chars =
     read_string_loop cs (fst (advance e l (c + 1))) (snd (advance e l (c + 1)))
       (chars @ [unescape e])"
  by (auto simp: advance_def split: prod.splits)

lemma read_string_loop_close:
  "read_string_loop (ch_quote # cs) l c chars = Some (chars, cs, l, c + 1)"
  by (cases cs) (auto simp: advance_def)

lemma read_string_loop_escaped:
  "\<exists>l' c'. read_string_loop (escape_string s @ ch_quote # rest) l c chars
            = Some (chars @ s, rest, l', c')"
proof (induction s arbitrary: l c chars)
  case Nil
  show ?case by (simp add: read_string_loop_close)
next
  case (Cons ch s)
  let ?more = "escape_string s @ ch_quote # rest"
  consider (esc) "ch = ch_quote \<or> ch = ch_backslash \<or> ch = ch_newline \<or> ch = ch_cr \<or> ch = ch_tab"
    | (plain) "ch \<noteq> ch_quote" "ch \<noteq> ch_backslash" "ch \<noteq> ch_newline" "ch \<noteq> ch_cr" "ch \<noteq> ch_tab"
    by blast
  then show ?case
  proof cases
    case esc
    then obtain e where e: "escape_char ch = [ch_backslash, e]" "unescape e = ch"
      by (auto simp: escape_char_def unescape_def)
    from Cons[of "fst (advance e l (c + 1))" "snd (advance e l (c + 1))" "chars @ [ch]"] e
    show ?thesis by (simp add: read_string_loop_escape del: read_string_loop.simps)
  next
    case plain
    then have e: "escape_char ch = [ch]" by (simp add: escape_char_def)
    from Cons[of "fst (advance ch l c)" "snd (advance ch l c)" "chars @ [ch]"] e plain
    show ?thesis by (simp add: read_string_loop_plain del: read_string_loop.simps)
  qed
qed

lemma read_string_escaped:
  "\<exists>l' c'. read_string (ch_quote # escape_string s @ ch_quote # rest) l c
            = Inr (Token STRING s l c, rest, l', c')"
proof -
  from read_string_loop_escaped[of s rest "fst (advance ch_quote l c)" "snd (advance ch_quote l c)" "[]"]
  obtain l' c' where
    "read_string_loop (escape_string s @ ch_quote # rest)
       (fst (advance ch_quote l c)) (snd (advance ch_quote l c)) [] = Some (s, rest, l', c')"
    by auto
  then have "read_string (ch_quote # escape_string s @ ch_quote # rest) l c
               = Inr (Token STRING s l c, rest, l', c')"
    by (simp add: read_string_def case_prod_beta)
  then show ?thesis by blast
qed

lemma tokenize_quoted:
  "tokenize (ch_quote # escape_string s @ [ch_quote]) = Inr [Token STRING s 1 1]"
  "tokenize (ch_quote # escape_string s @ [ch_quote, ch_newline]) = Inr [Token STRING s 1 1]"
proof -
  have sk: "skip_whitespace (ch_quote # cs) 1 1 = (ch_quote # cs, 1, 1)" for cs
    by (simp add: is_space_def)
  note step = tokenize_loop_quote[OF sk]
  from read_string_escaped[of s "[]" 1 1] obtain l1 c1 where
    rs1: "read_string (ch_quote # escape_string s @ [ch_quote]) 1 1
       = Inr (Token STRING s 1 1, [], l1, c1)" by auto
  show "tokenize (ch_quote # escape_string s @ [ch_quote]) = Inr [Token STRING s 1 1]"
    unfolding tokenize_def step rs1 by (simp add: tokenize_loop_Nil)
  from read_string_escaped[of s "[ch_newline]" 1 1] obtain l2 c2 where
    rs2: "read_string (ch_quote # escape_string s @ [ch_quote, ch_newline]) 1 1
       = Inr (Token STRING s 1 1, [ch_newline], l2, c2)" by auto
  have fin: "tokenize_loop [ch_newline] l2 c2 toks = Inr toks" for toks
    by (rule tokenize_loop_end[of _ _ _ "l2 + 1" 1]) (simp add: is_space_def advance_def)
  show "tokenize (ch_quote # escape_string s @ [ch_quote, ch_newline])
                    = Inr [Token STRING s 1 1]"
    unfolding tokenize_def step rs2 by (simp add: fin)
qed

lemma parse_single_string: "parse [Token STRING s l c] = Inr (Atom s)"
  by (simp add: parse_def)

lemma quoted_atom_round_trip:
  assumes "needs_quoting s"
  shows "format_atom s = ch_quote # escape_string s @ [ch_quote]"
    and "tokenize (format_atom s) = Inr [Token STRING s 1 1]"
    and "parse_sexpr (format_atom s) = Inr (Atom s)"
    and "parse_sexpr (write_sexpr (Atom s)) = Inr (Atom s)"
  using assms
  by (simp_all add: format_atom_def tokenize_quoted parse_sexpr_def parse_single_string
        write_sexpr_def SExprWriter_write_def)

text \<open>
  Claim C7. An atom that contains a quote character, a newline and a backslash is
  written in quotes with its characters escaped; tokenizing the written text gives one
  STRING token whose value is the atom, and parsing it, alone or as the text that
  \<open>write_sexpr\<close> returns for the atom, gives back the atom unchanged.
\<close>

theorem escaped_atom_round_trip:
  assumes "ch_quote \<in> set s" and "ch_newline \<in> set s" and "ch_backslash \<in> set s"
  shows "format_atom s = ch_quote # escape_string s @ [ch_quote]
         \<and> tokenize (format_atom s) = Inr [Token STRING s 1 1]
         \<and> parse_sexpr (format_atom s) = Inr (Atom s)
         \<and> parse_sexpr (write_sexpr (Atom s)) = Inr (Atom s)"
proof -
  from assms(1) have "needs_quoting s" by (auto simp: needs_quoting_def list_ex_iff)
  from quoted_atom_round_trip[OF this] show ?thesis by simp
qed

theorem escaped_atom_round_trip_witness:
  "format_atom (''a'' @ [ch_quote] @ ''b'' @ [ch_newline] @ ''c'' @ [ch_backslash] @ ''d'')
     = [ch_quote] @ ''a'' @ [ch_backslash, ch_quote] @ ''b'' @ [ch_backslash] @ ''nc''
       @ [ch_backslash, ch_backslash] @ ''d'' @ [ch_quote]
   \<and> parse_sexpr (write_sexpr
         (Atom (''a'' @ [ch_quote] @ ''b'' @ [ch_newline] @ ''c'' @ [ch_backslash] @ ''d'')))
     = Inr (Atom (''a'' @ [ch_quote] @ ''b'' @ [ch_newline] @ ''c'' @ [ch_backslash] @ ''d''))"
  using escaped_atom_round_trip
    [of "''a'' @ [ch_quote] @ ''b'' @ [ch_newline] @ ''c'' @ [ch_backslash] @ ''d''"]
  by (simp add: escape_char_def)

subsection \<open>Pin type and shape\<close>

lemma from_string_examples:
  "PinElectricalType_from_string ''input'' = INPUT"
  "PinElectricalType_from_string ''passive'' = PASSIVE"
  "PinElectricalType_from_string ''inverted'' = UNSPECIFIED"
  "PinElectricalType_from_string ''line'' = UNSPECIFIED"
  "PinShape_from_string ''inverted'' = INVERTED"
  by (simp_all add: PinElectricalType_from_string_def PinShape_from_string_def
        electrical_type_mapping_def shape_mapping_def lower_def lower_char_def)

lemma pin_type_scan_shape: "snd (pin_type_scan xs et sh) = sh"
  by (induction xs et sh rule: pin_type_scan.induct) auto

lemma parse_pin_shape: "parse_pin F expr = Inr pin \<Longrightarrow> pin_shape pin = LINE"
  using pin_type_scan_shape[of "tl expr" UNSPECIFIED LINE]
  by (auto simp: parse_pin_def bind_exn_def split: prod.splits sum.splits)

text \<open>
  Claim C2 at the pin form \<open>(pin input inverted)\<close>: the claim gives the electrical type
  \<open>input\<close> and the shape \<open>inverted\<close>; \<open>_parse_pin\<close> returns a pin of electrical type
  \<open>unspecified\<close> and shape \<open>line\<close>. The second atom replaces the electrical type read
  from the first one, and no pin that \<open>_parse_pin\<close> returns has a shape other than
  \<open>line\<close> (lemma \<open>parse_pin_shape\<close>).
\<close>

theorem parse_pin_type_shape_lost:
  "parse_pin F [Atom ''pin'', Atom ''input'', Atom ''inverted''] =
     Inr \<lparr>pin_number = '''', pin_name = '''',
          pin_electrical_type = UNSPECIFIED, pin_shape = LINE,
          pin_position = Position0 F, pin_length = flit F ''2.54'',
          pin_name_effects = None, pin_number_effects = None, pin_hide = False\<rparr>"
  by (simp add: parse_pin_def parse_position_def parse_pin_label_def bind_exn_def
        from_string_examples)

subsection \<open>Unit and style index\<close>

lemma py_int_examples: "py_int ''2'' = Some 2" "py_int ''x'' = None" "py_int ''1'' = Some 1"
  by (simp_all add: py_int_def py_strip_def is_py_space_def py_nat_def is_digit_def digit_val_def)

lemma rsplit_example: "rsplit (CHR ''_'') 2 ''Sym_2_x'' = [''Sym'', ''2'', ''x'']"
  by (simp add: numeral_2_eq_2 split_last_def)

text \<open>
  Claim C6 at the unit name \<open>Sym_2_x\<close>: the style segment \<open>x\<close> is not a number, so the
  claim gives the indices \<open>(1, 1)\<close>; the code returns the unit index 2 and the style
  index 1, and \<open>_parse_symbol_unit\<close> returns a unit with these indices.
\<close>

theorem unit_indices_partial:
  "unit_indices ''Sym_2_x'' = (2, 1)
   \<and> parse_symbol_unit F [Atom ''symbol'', Atom ''Sym_2_x''] =
       Inr \<lparr>unit_name = ''Sym_2_x'', unit_index = 2, style_index = 1,
            unit_pins = [], unit_graphics = []\<rparr>"
  by (simp add: parse_symbol_unit_def unit_indices_def rsplit_example py_int_examples
        str_at_def bind_exn_def)

subsection \<open>The writer's layouts\<close>









subsection \<open>Tokenizing a written text\<close>








subsection \<open>Parsing the tokens of a tree\<close>






subsection \<open>Round trip of a symbol library\<close>










lemma parse_symbol_def_name:
  "parse_symbol_def F (items_of (write_symbol_def F s)) = Inr s' \<Longrightarrow> sym_name s' = sym_name s"
proof -
  have keep: "fold_exn (symbol_def_item F) xs st = Inr st' \<Longrightarrow> sym_name st' = sym_name st" for xs st st'
  proof (induction xs arbitrary: st)
    case Nil
    then show ?case by simp
  next
    case (Cons x xs)
    from Cons.prems obtain st1 where 1: "symbol_def_item F x st = Inr st1"
      and 2: "fold_exn (symbol_def_item F) xs st1 = Inr st'"
      by (auto split: sum.splits)
    from 1 have "sym_name st1 = sym_name st"
      by (auto simp: symbol_def_item_def bind_exn_def Let_def
               split: sexpr.splits list.splits sum.splits if_splits)
    with Cons.IH[OF 2] show ?case by simp
  qed
  assume "parse_symbol_def F (items_of (write_symbol_def F s)) = Inr s'"
  from keep[OF this[unfolded parse_symbol_def_def]] show ?thesis
    by (simp add: write_symbol_def_def str_at_def)
qed













subsection \<open>Root tag and version of a decoded file\<close>









end
